theory Spec2Isabelle
  imports Main "HOL-Library.AList"
begin

text \<open>
  The adapter of \<open>prism.ts\<close>: \<open>createServer\<close> and its \<open>fetch\<close>, which turn a \<open>Request\<close>
  into the engine's normalized request, run the engine, and turn its output, or any
  failure, into a \<open>Response\<close>. The engine and the imported library functions are
  parameters of the model; the built-ins of the language and of the platform that the
  code calls (\<open>JSON.stringify\<close>, \<open>JSON.parse\<close>, \<open>Headers\<close>, \<open>Response\<close>, property
  assignment) are modelled on the values defined below. Calls to the logger do not
  change any result and are left out.
\<close>

section \<open>JavaScript values\<close>

text \<open>
  The adapter handles bodies of type \<open>unknown\<close>. They are modelled by the JSON-shaped
  fragment of JavaScript values, with \<open>undefined\<close> added. Numbers are restricted to
  integers; strings are lists of 8-bit characters; an object is the list of its own
  properties in enumeration order.
\<close>

datatype jsval =
    JUndefined
  | JNull
  | JBool bool
  | JNum int
  | JStr string
  | JArr "jsval list"
  | JObj "(string \<times> jsval) list"

text \<open>The \<open>typeof\<close> operator.\<close>

fun typeof :: "jsval \<Rightarrow> string" where
  "typeof JUndefined = ''undefined''"
| "typeof JNull = ''object''"
| "typeof (JBool b) = ''boolean''"
| "typeof (JNum n) = ''number''"
| "typeof (JStr s) = ''string''"
| "typeof (JArr xs) = ''object''"
| "typeof (JObj ps) = ''object''"

text \<open>Truthiness, as \<open>!x\<close>, \<open>x || y\<close> and \<open>x ? a : b\<close> read it.\<close>

fun truthy :: "jsval \<Rightarrow> bool" where
  "truthy JUndefined = False"
| "truthy JNull = False"
| "truthy (JBool b) = b"
| "truthy (JNum n) = (n \<noteq> 0)"
| "truthy (JStr s) = (s \<noteq> [])"
| "truthy (JArr xs) = True"
| "truthy (JObj ps) = True"

text \<open>An optional string (\<open>string | undefined\<close>) as a value, and its truthiness.\<close>

definition of_opt_string :: "string option \<Rightarrow> jsval" where
  "of_opt_string s = (case s of None \<Rightarrow> JUndefined | Some t \<Rightarrow> JStr t)"

section \<open>Errors\<close>

text \<open>
  A validation error as the adapter builds it (\<open>type ValidationError\<close>), and the
  engine's diagnostic it is built from (\<open>IPrismDiagnostic\<close>).
\<close>

datatype DiagnosticSeverity = Error | Warning | Information | Hint

text \<open>The reverse mapping \<open>DiagnosticSeverity[severity]\<close> of the enum.\<close>

fun DiagnosticSeverity_name :: "DiagnosticSeverity \<Rightarrow> string" where
  "DiagnosticSeverity_name Error = ''Error''"
| "DiagnosticSeverity_name Warning = ''Warning''"
| "DiagnosticSeverity_name Information = ''Information''"
| "DiagnosticSeverity_name Hint = ''Hint''"

record IPrismDiagnostic =
  diag_path :: "string list option"
  diag_severity :: DiagnosticSeverity
  diag_code :: jsval
  diag_message :: "string option"

record ValidationError =
  location :: "string list"
  severity :: string
  code :: jsval
  message :: "string option"

text \<open>
  The \<open>additional\<close> dictionary of a failure. The adapter reads its \<open>headers\<close> and writes
  its \<open>validation\<close>; no other key is touched.
\<close>

record additional =
  add_headers :: "(string \<times> string) list option"
  add_validation :: "ValidationError list option"

text \<open>
  An \<open>Error\<close> object with the optional fields the adapter attaches or reads
  (\<open>Error & { status?, detail?, additional? }\<close>). \<open>new Error(m)\<close> has the name
  \<open>Error\<close>, the message \<open>m\<close> and none of the optional fields.
\<close>

record js_error =
  err_name :: string
  err_message :: string
  err_status :: "int option"
  err_detail :: "string option"
  err_additional :: "additional option"

definition new_Error :: "string \<Rightarrow> js_error" where
  "new_Error m = \<lparr>err_name = ''Error'', err_message = m, err_status = None,
     err_detail = None, err_additional = None\<rparr>"

section \<open>JSON.stringify\<close>

text \<open>
  The built-in \<open>JSON.stringify\<close> with one argument, on the values above: no white space,
  \<open>undefined\<close> gives \<open>undefined\<close> at the top, \<open>null\<close> inside an array, and drops the
  property inside an object.
\<close>

fun show_nat :: "nat \<Rightarrow> string" where
  "show_nat n = (if n < 10 then [char_of (48 + n)]
     else show_nat (n div 10) @ [char_of (48 + n mod 10)])"

declare show_nat.simps [simp del]

definition show_int :: "int \<Rightarrow> string" where
  "show_int i = (if i < 0 then CHR ''-'' # show_nat (nat (- i)) else show_nat (nat i))"

definition hex_digit :: "nat \<Rightarrow> char" where
  "hex_digit d = (if d < 10 then char_of (48 + d) else char_of (87 + d))"

text \<open>\<open>QuoteJSONString\<close>: the two-character escapes, \<open>\u00XX\<close> for the other control
  characters, every other character as it is.\<close>

definition quote_char :: "char \<Rightarrow> string" where
  "quote_char c =
     (let n = (of_char c :: nat) in
      if n = 8 then [CHR 0x5C, CHR ''b'']
      else if n = 9 then [CHR 0x5C, CHR ''t'']
      else if n = 10 then [CHR 0x5C, CHR ''n'']
      else if n = 12 then [CHR 0x5C, CHR ''f'']
      else if n = 13 then [CHR 0x5C, CHR ''r'']
      else if n = 34 then [CHR 0x5C, CHR 0x22]
      else if n = 92 then [CHR 0x5C, CHR 0x5C]
      else if n < 32 then [CHR 0x5C, CHR ''u'', CHR ''0'', CHR ''0'', hex_digit (n div 16), hex_digit (n mod 16)]
      else [c])"

definition QuoteJSONString :: "string \<Rightarrow> string" where
  "QuoteJSONString s = CHR 0x22 # concat (map quote_char s) @ [CHR 0x22]"

fun join_comma :: "string list \<Rightarrow> string" where
  "join_comma [] = []"
| "join_comma [x] = x"
| "join_comma (x # y # ys) = x @ CHR '','' # join_comma (y # ys)"

fun JSON_stringify :: "jsval \<Rightarrow> string option"
  and JSON_elements :: "jsval list \<Rightarrow> string list"
  and JSON_members :: "(string \<times> jsval) list \<Rightarrow> string list"
where
  "JSON_stringify JUndefined = None"
| "JSON_stringify JNull = Some ''null''"
| "JSON_stringify (JBool b) = Some (if b then ''true'' else ''false'')"
| "JSON_stringify (JNum n) = Some (show_int n)"
| "JSON_stringify (JStr s) = Some (QuoteJSONString s)"
| "JSON_stringify (JArr xs) = Some (CHR ''['' # join_comma (JSON_elements xs) @ '']'')"
| "JSON_stringify (JObj ps) = Some (CHR ''{'' # join_comma (JSON_members ps) @ ''}'')"
| "JSON_elements [] = []"
| "JSON_elements (x # xs) =
     (case JSON_stringify x of None \<Rightarrow> ''null'' | Some s \<Rightarrow> s) # JSON_elements xs"
| "JSON_members [] = []"
| "JSON_members ((k, v) # ps) =
     (case JSON_stringify v of
        None \<Rightarrow> JSON_members ps
      | Some s \<Rightarrow> (QuoteJSONString k @ CHR '':'' # s) # JSON_members ps)"

section \<open>Response Synthesizer: serializers\<close>

text \<open>
  The imported \<open>typeIs\<close> (package type-is) and \<open>XMLBuilder.build\<close> (package
  fast-xml-parser) are parameters: \<open>typeIs value types\<close> stands for the truth value
  \<open>!!typeIs(value, types)\<close>. A function that can throw returns \<open>js_error + 'a\<close>, with
  \<open>Inl\<close> for the thrown error.
\<close>

record serializer_entry =
  test :: "string \<Rightarrow> bool"
  serializer :: "jsval \<Rightarrow> js_error + jsval"

definition NO_COMPLEX_OBJECT_TEXT :: js_error where
  "NO_COMPLEX_OBJECT_TEXT =
     \<lparr>err_name = ''https://stoplight.io/prism/errors#NO_COMPLEX_OBJECT_TEXT'',
      err_message = ''Cannot serialise complex objects as text'',
      err_status = Some 500,
      err_detail = Some ''Cannot serialise complex objects as text'',
      err_additional = None\<rparr>"

definition json_serializer :: "jsval \<Rightarrow> js_error + jsval" where
  "json_serializer data = Inr (of_opt_string (JSON_stringify data))"

definition xml_serializer :: "(jsval \<Rightarrow> string) \<Rightarrow> jsval \<Rightarrow> js_error + jsval" where
  "xml_serializer build data =
     (if typeof data = ''string'' then Inr data
      else Inr (JStr (build (JObj [(''xml'', data)]))))"

definition text_serializer :: "jsval \<Rightarrow> js_error + jsval" where
  "text_serializer data =
     (if typeof data \<in> set [''string'', ''undefined''] then Inr data
      else Inl NO_COMPLEX_OBJECT_TEXT)"

definition serializers ::
  "(string \<Rightarrow> string list \<Rightarrow> bool) \<Rightarrow> (jsval \<Rightarrow> string) \<Rightarrow> serializer_entry list" where
  "serializers typeIs build =
     [\<lparr>test = (\<lambda>v. typeIs v [''application/json'', ''application/*+json'']),
       serializer = json_serializer\<rparr>,
      \<lparr>test = (\<lambda>v. typeIs v [''application/xml'', ''application/*+xml'']),
       serializer = xml_serializer build\<rparr>,
      \<lparr>test = (\<lambda>v. typeIs v [''text/*'']),
       serializer = text_serializer\<rparr>]"

text \<open>
  \<open>serialize(payload, contentType)\<close>. The content type is \<open>string | undefined\<close>; the empty
  string is falsy like \<open>undefined\<close>. The template literal prints \<open>undefined\<close> for a
  missing content type.
\<close>

definition serialize ::
  "(string \<Rightarrow> string list \<Rightarrow> bool) \<Rightarrow> (jsval \<Rightarrow> string) \<Rightarrow> jsval \<Rightarrow> string option
     \<Rightarrow> js_error + jsval" where
  "serialize typeIs build payload contentType =
     (if \<not> truthy (of_opt_string contentType) \<and> \<not> truthy payload then Inr JUndefined
      else
        case (if truthy (of_opt_string contentType)
              then find (\<lambda>s. test s (the contentType)) (serializers typeIs build)
              else None) of
          None \<Rightarrow>
            (if typeof payload = ''string'' then Inr payload
             else Inl (new_Error (''Cannot find serializer for '' @
                    (case contentType of None \<Rightarrow> ''undefined'' | Some c \<Rightarrow> c))))
        | Some s \<Rightarrow> serializer s payload)"

section \<open>Request Normalizer: query parameters\<close>

text \<open>
  \<open>URLSearchParams\<close> is the list of its name-value pairs in order of occurrence.
  \<open>IHttpNameValues\<close> maps a name to \<open>string | string[]\<close>. The result object is built by
  plain assignment \<open>params[key] = ...\<close> on an object literal: as on every ordinary
  object, the key \<open>__proto__\<close> reaches the inherited accessor of \<open>Object.prototype\<close>
  and creates no own property.
\<close>

datatype name_value = Scalar string | Multi "string list"

definition URLSearchParams_keys :: "(string \<times> string) list \<Rightarrow> string list" where
  "URLSearchParams_keys sp = map fst sp"

definition URLSearchParams_getAll :: "(string \<times> string) list \<Rightarrow> string \<Rightarrow> string list" where
  "URLSearchParams_getAll sp key = map snd (filter (\<lambda>p. fst p = key) sp)"

definition URLSearchParams_get :: "(string \<times> string) list \<Rightarrow> string \<Rightarrow> string option" where
  "URLSearchParams_get sp key = map_of sp key"

definition object_assign :: "string \<Rightarrow> 'v \<Rightarrow> (string \<times> 'v) list \<Rightarrow> (string \<times> 'v) list" where
  "object_assign key v obj = (if key = ''__proto__'' then obj else AList.update key v obj)"

definition searchParamsToNameValues :: "(string \<times> string) list \<Rightarrow> (string \<times> name_value) list" where
  "searchParamsToNameValues searchParams =
     fold (\<lambda>key params.
             let values = URLSearchParams_getAll searchParams key
             in object_assign key (case values of [v] \<Rightarrow> Scalar v | _ \<Rightarrow> Multi values) params)
          (URLSearchParams_keys searchParams) []"

section \<open>Response Synthesizer: the violations header\<close>

text \<open>
  \<open>Headers\<close> is the list of its entries, names in lower case. \<open>get\<close> answers \<open>null\<close> for
  a missing name. \<open>set\<close> first strips the HTTP white space (tab, line feed, carriage
  return, space) from both ends of the value; it throws a \<open>TypeError\<close> when the name is
  not a token or the value holds a NUL, a line feed or a carriage return; otherwise it
  replaces the value of a name that is there. Strings are 8-bit here, so a value never
  has a character above \<open>U+00FF\<close>, which \<open>set\<close> would refuse too.
\<close>

definition TypeError :: "string \<Rightarrow> js_error" where
  "TypeError m = (new_Error m)\<lparr>err_name := ''TypeError''\<rparr>"

definition RangeError :: "string \<Rightarrow> js_error" where
  "RangeError m = (new_Error m)\<lparr>err_name := ''RangeError''\<rparr>"

definition http_whitespace :: "char \<Rightarrow> bool" where
  "http_whitespace c = ((of_char c :: nat) \<in> {9, 10, 13, 32})"

definition normalize_value :: "string \<Rightarrow> string" where
  "normalize_value v = rev (dropWhile http_whitespace (rev (dropWhile http_whitespace v)))"

definition is_tchar :: "char \<Rightarrow> bool" where
  "is_tchar c =
     (let n = (of_char c :: nat)
      in (48 \<le> n \<and> n \<le> 57) \<or> (65 \<le> n \<and> n \<le> 90) \<or> (97 \<le> n \<and> n \<le> 122)
         \<or> n \<in> {33, 35, 36, 37, 38, 39, 42, 43, 45, 46, 94, 95, 96, 124, 126})"

definition is_header_name :: "string \<Rightarrow> bool" where
  "is_header_name n = (n \<noteq> [] \<and> list_all is_tchar n)"

definition is_header_value :: "string \<Rightarrow> bool" where
  "is_header_value v =
     (list_all (\<lambda>c. (of_char c :: nat) \<notin> {0, 10, 13}) v
      \<and> (v = [] \<or> (\<not> http_whitespace (hd v) \<and> \<not> http_whitespace (last v))))"

definition lower_char :: "char \<Rightarrow> char" where
  "lower_char c = (let n = (of_char c :: nat) in if 65 \<le> n \<and> n \<le> 90 then char_of (n + 32) else c)"

definition Headers_get :: "(string \<times> string) list \<Rightarrow> string \<Rightarrow> jsval" where
  "Headers_get hs n = (case map_of hs (map lower_char n) of None \<Rightarrow> JNull | Some v \<Rightarrow> JStr v)"

definition Headers_set ::
  "string \<Rightarrow> string \<Rightarrow> (string \<times> string) list \<Rightarrow> js_error + (string \<times> string) list" where
  "Headers_set n v hs =
     (if is_header_name n \<and> is_header_value (normalize_value v)
      then Inr (AList.update (map lower_char n) (normalize_value v) hs)
      else Inl (TypeError ''Invalid header''))"

definition ValidationError_json :: "ValidationError \<Rightarrow> jsval" where
  "ValidationError_json e =
     JObj [(''location'', JArr (map JStr (location e))),
           (''severity'', JStr (severity e)),
           (''code'', code e),
           (''message'', of_opt_string (message e))]"

definition MAX_SAFE_HEADER_LENGTH :: nat where
  "MAX_SAFE_HEADER_LENGTH = 8 * 1024 - 100"

definition addViolationHeader ::
  "(string \<times> string) list \<Rightarrow> ValidationError list \<Rightarrow> js_error + (string \<times> string) list" where
  "addViolationHeader replyHeaders validationErrors =
     (if length validationErrors = 0 then Inr replyHeaders
      else
        let v = the (JSON_stringify (JArr (map ValidationError_json validationErrors)));
            v' = (if length v > MAX_SAFE_HEADER_LENGTH
                  then ''Too many violations! '' @ take MAX_SAFE_HEADER_LENGTH v
                  else v)
        in Headers_set ''sl-violations'' v' replyHeaders)"

text \<open>A single request violation whose message is \<open>n\<close> times the character \<open>c\<close>; its
  encoding is \<open>58 + n\<close> characters long when \<open>c\<close> is a letter or a space.\<close>

definition long_violation :: "char \<Rightarrow> nat \<Rightarrow> ValidationError" where
  "long_violation c n = \<lparr>location = [''request''], severity = ''Error'', code = JUndefined,
     message = Some (replicate n c)\<rparr>"

section \<open>Preference Resolver\<close>

text \<open>
  The decoders of io-ts. A failed leaf holds the actual value and what was expected; a
  \<open>DecodeError\<close> of the partial decoder lists the failed properties by key.
\<close>

type_synonym decode_error = "(string \<times> jsval \<times> string) list"

definition D_string :: "jsval \<Rightarrow> (jsval \<times> string) + string" where
  "D_string u = (case u of JStr s \<Rightarrow> Inr s | _ \<Rightarrow> Inl (u, ''string''))"

definition is_digit :: "char \<Rightarrow> bool" where
  "is_digit c = (48 \<le> (of_char c :: nat) \<and> (of_char c :: nat) \<le> 57)"

definition digit_value :: "char \<Rightarrow> nat" where
  "digit_value c = (of_char c :: nat) - 48"

text \<open>\<open>parseInt(s, 10)\<close> on a string of decimal digits.\<close>

definition parseInt10 :: "string \<Rightarrow> int" where
  "parseInt10 s = int (foldl (\<lambda>a c. 10 * a + digit_value c) 0 s)"

text \<open>The regular expression \<open>/^\d{3}$/\<close>: exactly three characters, each a decimal digit.\<close>

definition three_digits :: "string \<Rightarrow> bool" where
  "three_digits s = (length s = 3 \<and> list_all is_digit s)"

definition BooleanFromString :: "string \<Rightarrow> (jsval \<times> string) + bool" where
  "BooleanFromString s =
     (if s = ''true'' then Inr True
      else if s = ''false'' then Inr False
      else Inl (JStr s, ''a boolean''))"

definition IntegerFromString :: "string \<Rightarrow> (jsval \<times> string) + int" where
  "IntegerFromString s =
     (if three_digits s then Inr (parseInt10 s) else Inl (JStr s, ''a number''))"

text \<open>\<open>pipe(D.string, next)\<close>.\<close>

definition pipe_string :: "(string \<Rightarrow> (jsval \<times> string) + 'a) \<Rightarrow> jsval \<Rightarrow> (jsval \<times> string) + 'a" where
  "pipe_string next u = (case D_string u of Inl e \<Rightarrow> Inl e | Inr s \<Rightarrow> next s)"

definition object_get :: "(string \<times> jsval) list \<Rightarrow> string \<Rightarrow> jsval" where
  "object_get obj key = (case map_of obj key of None \<Rightarrow> JUndefined | Some v \<Rightarrow> v)"

text \<open>One property of \<open>D.partial\<close>: an \<open>undefined\<close> property is left out, any other
  value is decoded.\<close>

definition decode_property ::
  "(jsval \<Rightarrow> (jsval \<times> string) + 'a) \<Rightarrow> string \<Rightarrow> (string \<times> jsval) list \<Rightarrow> decode_error + 'a option" where
  "decode_property d key i =
     (if object_get i key = JUndefined then Inr None
      else case d (object_get i key) of
             Inl e \<Rightarrow> Inl [(key, e)]
           | Inr a \<Rightarrow> Inr (Some a))"

record Preferences =
  pref_code :: "int option"
  pref_dynamic :: "bool option"
  pref_example :: "string option"

definition errors_of :: "decode_error + 'a \<Rightarrow> decode_error" where
  "errors_of r = (case r of Inl e \<Rightarrow> e | Inr a \<Rightarrow> [])"

definition PreferencesDecoder_decode :: "(string \<times> jsval) list \<Rightarrow> decode_error + Preferences" where
  "PreferencesDecoder_decode i =
     (let c = decode_property (pipe_string IntegerFromString) ''code'' i;
          d = decode_property (pipe_string BooleanFromString) ''dynamic'' i;
          e = decode_property D_string ''example'' i
      in case (c, d, e) of
           (Inr c', Inr d', Inr e') \<Rightarrow>
             Inr \<lparr>pref_code = c', pref_dynamic = d', pref_example = e'\<rparr>
         | _ \<Rightarrow> Inl (errors_of c @ errors_of d @ errors_of e))"

text \<open>
  Modelled from the spec: \<open>ProblemJsonError.fromTemplate\<close> and the template
  \<open>UNPROCESSABLE_ENTITY\<close> are imported from the engine's package and are not among the
  sources. A failure built from a template carries the template's type, title and
  status, the given detail and the given additional dictionary; the status of
  \<open>UNPROCESSABLE_ENTITY\<close> is 422.
\<close>

record problem_template =
  tpl_type :: string
  tpl_title :: string
  tpl_status :: int

definition ProblemJsonError_fromTemplate ::
  "problem_template \<Rightarrow> string \<Rightarrow> additional option \<Rightarrow> js_error" where
  "ProblemJsonError_fromTemplate t d a =
     \<lparr>err_name = ''https://stoplight.io/prism/errors#'' @ tpl_type t,
      err_message = tpl_title t,
      err_status = Some (tpl_status t),
      err_detail = Some d,
      err_additional = a\<rparr>"

definition UNPROCESSABLE_ENTITY :: problem_template where
  "UNPROCESSABLE_ENTITY =
     \<lparr>tpl_type = ''UNPROCESSABLE_ENTITY'', tpl_title = ''Invalid request'', tpl_status = 422\<rparr>"

text \<open>The normalized request (\<open>IHttpRequest\<close>) as \<open>fetch\<close> builds it.\<close>

record IHttpRequest =
  req_method :: string
  url_path :: string
  url_baseUrl :: "string option"
  url_query :: "(string \<times> name_value) list"
  req_headers :: "(string \<times> string) list"
  req_body :: jsval

fun name_value_js :: "name_value \<Rightarrow> jsval" where
  "name_value_js (Scalar s) = JStr s"
| "name_value_js (Multi vs) = JArr (map JStr vs)"

definition query_get :: "(string \<times> name_value) list \<Rightarrow> string \<Rightarrow> jsval" where
  "query_get q key = (case map_of q key of None \<Rightarrow> JUndefined | Some v \<Rightarrow> name_value_js v)"

record RequestPreferences =
  rp_code :: "int option"
  rp_exampleKey :: "string option"
  rp_dynamic :: "bool option"

text \<open>
  \<open>getHttpConfigFromRequest\<close>. The imported \<open>parsePreferHeader\<close> and \<open>D.draw\<close> are
  parameters. The header object is the plain object made from the request's headers,
  so a missing \<open>prefer\<close> reads as \<open>undefined\<close> and an empty one is falsy.
\<close>

definition preferences_of ::
  "(string \<Rightarrow> (string \<times> jsval) list) \<Rightarrow> IHttpRequest \<Rightarrow> (string \<times> jsval) list" where
  "preferences_of parsePreferHeader req =
     (if truthy (of_opt_string (map_of (req_headers req) ''prefer''))
      then parsePreferHeader (the (map_of (req_headers req) ''prefer''))
      else [(''code'', query_get (url_query req) ''__code''),
            (''dynamic'', query_get (url_query req) ''__dynamic''),
            (''example'', query_get (url_query req) ''__example'')])"

definition getHttpConfigFromRequest ::
  "(string \<Rightarrow> (string \<times> jsval) list) \<Rightarrow> (decode_error \<Rightarrow> string) \<Rightarrow> IHttpRequest
     \<Rightarrow> js_error + RequestPreferences" where
  "getHttpConfigFromRequest parsePreferHeader draw req =
     (let preferences = preferences_of parsePreferHeader req
      in case PreferencesDecoder_decode preferences of
           Inl err \<Rightarrow> Inl (ProblemJsonError_fromTemplate UNPROCESSABLE_ENTITY (draw err) None)
         | Inr parsed \<Rightarrow>
             Inr \<lparr>rp_code = pref_code parsed, rp_exampleKey = pref_example parsed,
                  rp_dynamic = pref_dynamic parsed\<rparr>)"


section \<open>JSON.parse\<close>

text \<open>
  The built-in \<open>JSON.parse\<close> on the values above: a recursive-descent reader of the JSON
  grammar that answers \<open>None\<close> where \<open>JSON.parse\<close> throws a \<open>SyntaxError\<close>. Two kinds of
  text have no value in this model and are also answered by \<open>None\<close>: a number with a
  fraction or an exponent, and a \<open>\u\<close> escape above \<open>\u00ff\<close>. The first argument of the
  three readers bounds the recursion; \<open>JSON_parse\<close> starts with more than the length of
  the text, which is always enough.
\<close>

definition is_ws :: "char \<Rightarrow> bool" where
  "is_ws c = ((of_char c :: nat) \<in> {32, 9, 10, 13})"

fun skip_ws :: "string \<Rightarrow> string" where
  "skip_ws [] = []"
| "skip_ws (c # cs) = (if is_ws c then skip_ws cs else c # cs)"

definition hex_value :: "char \<Rightarrow> nat option" where
  "hex_value c =
     (let n = (of_char c :: nat) in
      if 48 \<le> n \<and> n \<le> 57 then Some (n - 48)
      else if 97 \<le> n \<and> n \<le> 102 then Some (n - 87)
      else if 65 \<le> n \<and> n \<le> 70 then Some (n - 55)
      else None)"

definition unescape :: "char \<Rightarrow> char option" where
  "unescape e =
     (if e = CHR ''b'' then Some (char_of (8 :: nat))
      else if e = CHR ''t'' then Some (char_of (9 :: nat))
      else if e = CHR ''n'' then Some (char_of (10 :: nat))
      else if e = CHR ''f'' then Some (char_of (12 :: nat))
      else if e = CHR ''r'' then Some (char_of (13 :: nat))
      else if e = CHR 0x22 then Some (CHR 0x22)
      else if e = CHR 0x5C then Some (CHR 0x5C)
      else if e = CHR ''/'' then Some (CHR ''/'')
      else None)"

definition cons_char :: "char \<Rightarrow> (string \<times> string) option \<Rightarrow> (string \<times> string) option" where
  "cons_char c r = (case r of None \<Rightarrow> None | Some (s, t) \<Rightarrow> Some (c # s, t))"

text \<open>The characters of a string, after its opening quote, through its closing quote.\<close>

fun parse_chars :: "string \<Rightarrow> (string \<times> string) option" where
  "parse_chars [] = None"
| "parse_chars (c # cs) =
     (if (of_char c :: nat) = 34 then Some ([], cs)
      else if (of_char c :: nat) = 92 then
        (case cs of
           [] \<Rightarrow> None
         | e # r \<Rightarrow>
             if e = CHR ''u'' then
               (case r of
                  a # b # x # y # r' \<Rightarrow>
                    (case (hex_value a, hex_value b, hex_value x, hex_value y) of
                       (Some h3, Some h2, Some h1, Some h0) \<Rightarrow>
                         if h3 = 0 \<and> h2 = 0 then cons_char (char_of (16 * h1 + h0)) (parse_chars r')
                         else None
                     | _ \<Rightarrow> None)
                | _ \<Rightarrow> None)
             else
               (case unescape e of
                  None \<Rightarrow> None
                | Some d \<Rightarrow> cons_char d (parse_chars r)))
      else if (of_char c :: nat) < 32 then None
      else cons_char c (parse_chars cs))"

text \<open>A number: an optional minus sign and decimal digits without a leading zero.\<close>

definition parse_number :: "string \<Rightarrow> (int \<times> string) option" where
  "parse_number s =
     (let neg = (s \<noteq> [] \<and> hd s = CHR ''-'');
          r = (if neg then tl s else s);
          ds = takeWhile is_digit r;
          rest = dropWhile is_digit r
      in if ds = [] then None
         else if length ds > 1 \<and> hd ds = CHR ''0'' then None
         else if rest \<noteq> [] \<and> hd rest \<in> {CHR ''.'', CHR ''e'', CHR ''E''} then None
         else Some (if neg then - parseInt10 ds else parseInt10 ds, rest))"

definition strip_prefix :: "string \<Rightarrow> string \<Rightarrow> string option" where
  "strip_prefix p s = (if take (length p) s = p then Some (drop (length p) s) else None)"

text \<open>The object of a member list: a repeated name keeps its place and takes the later
  value.\<close>

definition members_object :: "(string \<times> jsval) list \<Rightarrow> (string \<times> jsval) list" where
  "members_object ms = fold (\<lambda>p obj. AList.update (fst p) (snd p) obj) ms []"

fun parse_value :: "nat \<Rightarrow> string \<Rightarrow> (jsval \<times> string) option"
  and parse_elements :: "nat \<Rightarrow> string \<Rightarrow> (jsval list \<times> string) option"
  and parse_members :: "nat \<Rightarrow> string \<Rightarrow> ((string \<times> jsval) list \<times> string) option"
where
  "parse_value 0 s = None"
| "parse_value (Suc n) s =
     (case skip_ws s of
        [] \<Rightarrow> None
      | c # cs \<Rightarrow>
          if c = CHR ''['' then
            (case skip_ws cs of
               [] \<Rightarrow> None
             | d # ds \<Rightarrow>
                 if d = CHR '']'' then Some (JArr [], ds)
                 else (case parse_elements n cs of
                         None \<Rightarrow> None
                       | Some (xs, r) \<Rightarrow> Some (JArr xs, r)))
          else if c = CHR ''{'' then
            (case skip_ws cs of
               [] \<Rightarrow> None
             | d # ds \<Rightarrow>
                 if d = CHR ''}'' then Some (JObj [], ds)
                 else (case parse_members n cs of
                         None \<Rightarrow> None
                       | Some (ms, r) \<Rightarrow> Some (JObj (members_object ms), r)))
          else if c = CHR 0x22 then
            (case parse_chars cs of None \<Rightarrow> None | Some (t, r) \<Rightarrow> Some (JStr t, r))
          else if c = CHR ''-'' \<or> is_digit c then
            (case parse_number (c # cs) of None \<Rightarrow> None | Some (i, r) \<Rightarrow> Some (JNum i, r))
          else
            (case strip_prefix ''null'' (c # cs) of
               Some r \<Rightarrow> Some (JNull, r)
             | None \<Rightarrow>
                 (case strip_prefix ''true'' (c # cs) of
                    Some r \<Rightarrow> Some (JBool True, r)
                  | None \<Rightarrow>
                      (case strip_prefix ''false'' (c # cs) of
                         Some r \<Rightarrow> Some (JBool False, r)
                       | None \<Rightarrow> None))))"
| "parse_elements 0 s = None"
| "parse_elements (Suc n) s =
     (case parse_value n s of
        None \<Rightarrow> None
      | Some (v, r) \<Rightarrow>
          (case skip_ws r of
             [] \<Rightarrow> None
           | c # cs \<Rightarrow>
               if c = CHR '','' then
                 (case parse_elements n cs of
                    None \<Rightarrow> None
                  | Some (vs, r') \<Rightarrow> Some (v # vs, r'))
               else if c = CHR '']'' then Some ([v], cs)
               else None))"
| "parse_members 0 s = None"
| "parse_members (Suc n) s =
     (case skip_ws s of
        [] \<Rightarrow> None
      | q # qs \<Rightarrow>
          if q \<noteq> CHR 0x22 then None
          else
            (case parse_chars qs of
               None \<Rightarrow> None
             | Some (k, r) \<Rightarrow>
                 (case skip_ws r of
                    [] \<Rightarrow> None
                  | c # cs \<Rightarrow>
                      if c \<noteq> CHR '':'' then None
                      else
                        (case parse_value n cs of
                           None \<Rightarrow> None
                         | Some (v, r') \<Rightarrow>
                             (case skip_ws r' of
                                [] \<Rightarrow> None
                              | d # ds \<Rightarrow>
                                  if d = CHR '','' then
                                    (case parse_members n ds of
                                       None \<Rightarrow> None
                                     | Some (ms, r'') \<Rightarrow> Some ((k, v) # ms, r''))
                                  else if d = CHR ''}'' then Some ([(k, v)], ds)
                                  else None)))))"

definition JSON_parse :: "string \<Rightarrow> jsval option" where
  "JSON_parse s =
     (case parse_value (Suc (length s)) s of
        None \<Rightarrow> None
      | Some (v, r) \<Rightarrow> if skip_ws r = [] then Some v else None)"

declare parse_value.simps [simp del] parse_elements.simps [simp del] parse_members.simps [simp del]

text \<open>
  The JSON-safe values: no \<open>undefined\<close> anywhere, numbers that are safe integers, and
  objects whose property names are distinct.
\<close>

fun json_safe :: "jsval \<Rightarrow> bool"
  and json_safe_elements :: "jsval list \<Rightarrow> bool"
  and json_safe_members :: "(string \<times> jsval) list \<Rightarrow> bool"
where
  "json_safe JUndefined = False"
| "json_safe JNull = True"
| "json_safe (JBool b) = True"
| "json_safe (JNum n) = (abs n < 2 ^ 53)"
| "json_safe (JStr s) = True"
| "json_safe (JArr xs) = json_safe_elements xs"
| "json_safe (JObj ps) = (distinct (map fst ps) \<and> json_safe_members ps)"
| "json_safe_elements [] = True"
| "json_safe_elements (x # xs) = (json_safe x \<and> json_safe_elements xs)"
| "json_safe_members [] = True"
| "json_safe_members (p # ps) = (json_safe (snd p) \<and> json_safe_members ps)"

text \<open>Where a value's text starts and what may follow it, for the properties of the
  reader.\<close>

definition value_start :: "string \<Rightarrow> bool" where
  "value_start s = (s \<noteq> [] \<and> \<not> is_ws (hd s) \<and> hd s \<noteq> CHR '']'' \<and> hd s \<noteq> CHR ''}'')"

definition value_end :: "string \<Rightarrow> bool" where
  "value_end rest = (rest = [] \<or> hd rest \<in> {CHR '','', CHR '']'', CHR ''}''})"

definition number_end :: "string \<Rightarrow> bool" where
  "number_end rest =
     (rest = [] \<or> (\<not> is_digit (hd rest) \<and> hd rest \<notin> {CHR ''.'', CHR ''e'', CHR ''E''}))"


section \<open>Configuration\<close>

text \<open>
  \<open>IHttpConfig\<close>, with the \<open>mock\<close> object as the list of its properties. The imported
  \<open>merge\<close> of lodash/fp copies its first argument into a fresh object
  (\<open>merge({}, object)\<close>) and merges the second into the copy: a source property is
  assigned when it is not \<open>undefined\<close> or when the key is missing.
\<close>

record IHttpConfig =
  checkSecurity :: bool
  validateRequest :: bool
  validateResponse :: bool
  mock :: "(string \<times> jsval) list"
  errors :: bool
  upstreamProxy :: "string option"
  isProxy :: bool

definition assignMergeValue :: "'v \<Rightarrow> string \<Rightarrow> 'v \<Rightarrow> (string \<times> 'v) list \<Rightarrow> (string \<times> 'v) list" where
  "assignMergeValue undef key v obj =
     (if v \<noteq> undef \<or> key \<notin> fst ` set obj then AList.update key v obj else obj)"

definition baseMerge :: "'v \<Rightarrow> (string \<times> 'v) list \<Rightarrow> (string \<times> 'v) list \<Rightarrow> (string \<times> 'v) list" where
  "baseMerge undef obj source = fold (\<lambda>p acc. assignMergeValue undef (fst p) (snd p) acc) source obj"

definition fp_merge :: "'v \<Rightarrow> (string \<times> 'v) list \<Rightarrow> (string \<times> 'v) list \<Rightarrow> (string \<times> 'v) list" where
  "fp_merge undef obj source = baseMerge undef (baseMerge undef [] obj) source"

definition of_opt_int :: "int option \<Rightarrow> jsval" where
  "of_opt_int n = (case n of None \<Rightarrow> JUndefined | Some i \<Rightarrow> JNum i)"

definition of_opt_bool :: "bool option \<Rightarrow> jsval" where
  "of_opt_bool b = (case b of None \<Rightarrow> JUndefined | Some v \<Rightarrow> JBool v)"

text \<open>The object \<open>{ code, exampleKey, dynamic }\<close> the resolver returns.\<close>

definition RequestPreferences_object :: "RequestPreferences \<Rightarrow> (string \<times> jsval) list" where
  "RequestPreferences_object p =
     [(''code'', of_opt_int (rp_code p)),
      (''exampleKey'', of_opt_string (rp_exampleKey p)),
      (''dynamic'', of_opt_bool (rp_dynamic p))]"

text \<open>\<open>{ ...config, mock: merge(config.mock, operationSpecificConfig) }\<close>.\<close>

definition requestConfig :: "IHttpConfig \<Rightarrow> RequestPreferences \<Rightarrow> IHttpConfig" where
  "requestConfig config operationSpecificConfig =
     config\<lparr>mock := fp_merge JUndefined (mock config)
        (RequestPreferences_object operationSpecificConfig)\<rparr>"

subsection \<open>The configuration objects in a store\<close>

text \<open>
  For the frame property the objects are placed in a store: an object is a list of
  properties whose values are primitive values or references, an address is an index
  into the list of allocated objects, and a new object is allocated at the end. The
  configuration object refers to its \<open>mock\<close> object; the properties of \<open>mock\<close> and of the
  preferences are primitive values.

  \<open>merge(object, source)\<close> of lodash writes the properties of the source into the object
  it is given, in place. lodash/fp wraps it: the first argument is replaced by
  \<open>merge({}, object)\<close>, a fresh object, before \<open>merge\<close> runs on it and the source. An
  object literal with a spread allocates a new object.
\<close>

datatype hval = Prim jsval | Ref nat

type_synonym store = "(string \<times> hval) list list"

definition store_merge :: "store \<Rightarrow> nat \<Rightarrow> (string \<times> hval) list \<Rightarrow> store" where
  "store_merge h object source = h[object := baseMerge (Prim JUndefined) (h ! object) source]"

definition store_fp_merge :: "store \<Rightarrow> nat \<Rightarrow> (string \<times> hval) list \<Rightarrow> store \<times> nat" where
  "store_fp_merge h object source =
     (let clone = length h;
          h1 = h @ [[]];
          h2 = store_merge h1 clone (h1 ! object);
          h3 = store_merge h2 clone source
      in (h3, clone))"

definition store_spread_mock :: "store \<Rightarrow> nat \<Rightarrow> nat \<Rightarrow> store \<times> nat" where
  "store_spread_mock h config m = (h @ [AList.update ''mock'' (Ref m) (h ! config)], length h)"

definition store_requestConfig :: "store \<Rightarrow> nat \<Rightarrow> RequestPreferences \<Rightarrow> store \<times> nat" where
  "store_requestConfig h config operationSpecificConfig =
     (case map_of (h ! config) ''mock'' of
        Some (Ref m) \<Rightarrow>
          (let (h1, merged) = store_fp_merge h m
                 (map (\<lambda>p. (fst p, Prim (snd p))) (RequestPreferences_object operationSpecificConfig))
           in store_spread_mock h1 config merged)
      | _ \<Rightarrow> (h, config))"

section \<open>The request pipeline\<close>

text \<open>
  A \<open>TaskEither\<close> of fp-ts when it is run: the promise rejects (an exception thrown
  inside a step; no combinator of fp-ts catches it), or it fulfils with a \<open>Left\<close> or a
  \<open>Right\<close>. \<open>chain\<close> runs the next step on a \<open>Right\<close>, \<open>orElse\<close> runs the handler on a
  \<open>Left\<close>; both pass a rejection on.
\<close>

datatype 'a task_either = Rejects js_error | Left js_error | Right 'a

definition TE_fromEither :: "js_error + 'a \<Rightarrow> 'a task_either" where
  "TE_fromEither e = (case e of Inl l \<Rightarrow> Left l | Inr r \<Rightarrow> Right r)"

definition TE_chain :: "('a \<Rightarrow> 'b task_either) \<Rightarrow> 'a task_either \<Rightarrow> 'b task_either" where
  "TE_chain f ma = (case ma of Rejects e \<Rightarrow> Rejects e | Left e \<Rightarrow> Left e | Right a \<Rightarrow> f a)"

definition TE_orElse :: "(js_error \<Rightarrow> 'a task_either) \<Rightarrow> 'a task_either \<Rightarrow> 'a task_either" where
  "TE_orElse onLeft ma = (case ma of Rejects e \<Rightarrow> Rejects e | Left e \<Rightarrow> onLeft e | Right a \<Rightarrow> Right a)"

text \<open>The engine's result (\<open>IPrismOutput<IHttpResponse>\<close>).\<close>

record IHttpResponse =
  statusCode :: int
  out_headers :: "(string \<times> string) list"
  out_body :: jsval

record IPrismOutput =
  prism_output :: IHttpResponse
  validations_input :: "IPrismDiagnostic list"
  validations_output :: "IPrismDiagnostic list"

text \<open>
  A \<open>Response\<close>: its status, its headers and the body it was constructed from
  (\<open>undefined\<close> for none). The constructor and \<open>Response.json\<close> throw a \<open>RangeError\<close> for
  a status outside 200 to 599, and a \<open>TypeError\<close> for a body together with a null-body
  status (101, 103, 204, 205, 304). With a string body and no content type among the
  headers the constructor adds \<open>text/plain;charset=UTF-8\<close>. \<open>Response.json\<close> first
  encodes the data, throwing a \<open>TypeError\<close> when \<open>JSON.stringify\<close> gives \<open>undefined\<close>; the
  text is always a body; it adds \<open>application/json\<close> when no content type is among the
  headers.
\<close>

record Response =
  resp_status :: int
  resp_headers :: "(string \<times> string) list"
  resp_body :: jsval

definition Headers_has :: "(string \<times> string) list \<Rightarrow> string \<Rightarrow> bool" where
  "Headers_has hs n = (map_of hs (map lower_char n) \<noteq> None)"

text \<open>\<open>new Headers(init)\<close> from a dictionary: the entries are appended in order, a
  repeated name joining its values. The engine's header names and values are taken to
  be ones the platform accepts.\<close>

definition Headers_append :: "string \<Rightarrow> string \<Rightarrow> (string \<times> string) list \<Rightarrow> (string \<times> string) list" where
  "Headers_append n v hs =
     (case map_of hs (map lower_char n) of
        None \<Rightarrow> hs @ [(map lower_char n, normalize_value v)]
      | Some old \<Rightarrow> AList.update (map lower_char n) (old @ '', '' @ normalize_value v) hs)"

definition null_body_status :: "int \<Rightarrow> bool" where
  "null_body_status st = (st \<in> {101, 103, 204, 205, 304})"

text \<open>The checks of a \<open>Response\<close> on its status; \<open>has_body\<close> says whether a body is
  given.\<close>

definition initialize_response :: "bool \<Rightarrow> int \<Rightarrow> js_error option" where
  "initialize_response has_body st =
     (if st < 200 \<or> 599 < st then Some (RangeError ''Invalid status'')
      else if has_body \<and> null_body_status st then Some (TypeError ''Invalid body'')
      else None)"

definition new_Headers :: "(string \<times> string) list \<Rightarrow> (string \<times> string) list" where
  "new_Headers init = fold (\<lambda>p hs. Headers_append (fst p) (snd p) hs) init []"

definition new_Response :: "jsval \<Rightarrow> (string \<times> string) list \<Rightarrow> int \<Rightarrow> js_error + Response" where
  "new_Response body hs st =
     (case initialize_response (body \<noteq> JUndefined \<and> body \<noteq> JNull) st of
        Some e \<Rightarrow> Inl e
      | None \<Rightarrow>
          Inr \<lparr>resp_status = st,
               resp_headers =
                 (if typeof body = ''string'' \<and> \<not> Headers_has hs ''content-type''
                  then Headers_append ''content-type'' ''text/plain;charset=UTF-8'' hs else hs),
               resp_body = body\<rparr>)"

definition Response_json :: "jsval \<Rightarrow> (string \<times> string) list \<Rightarrow> int \<Rightarrow> js_error + Response" where
  "Response_json data hs st =
     (case JSON_stringify data of
        None \<Rightarrow> Inl (TypeError ''Invalid data'')
      | Some s \<Rightarrow>
          (case initialize_response True st of
             Some e \<Rightarrow> Inl e
           | None \<Rightarrow>
               Inr \<lparr>resp_status = st,
                    resp_headers =
                      (if \<not> Headers_has hs ''content-type''
                       then Headers_append ''content-type'' ''application/json'' hs else hs),
                    resp_body = JStr s\<rparr>))"

definition createErrorObjectWithPrefix :: "string \<Rightarrow> IPrismDiagnostic \<Rightarrow> ValidationError" where
  "createErrorObjectWithPrefix locationPrefix detail =
     \<lparr>location = [locationPrefix] @ (case diag_path detail of None \<Rightarrow> [] | Some p \<Rightarrow> p),
      severity = DiagnosticSeverity_name (diag_severity detail),
      code = diag_code detail,
      message = diag_message detail\<rparr>"

text \<open>The imported functions and constants the pipeline is closed over.
  \<open>ProblemJsonError.toProblemJson\<close> returns an object (\<open>ProblemJson\<close>), given by the list
  of its properties.\<close>

record imported =
  imp_typeIs :: "string \<Rightarrow> string list \<Rightarrow> bool"
  imp_build :: "jsval \<Rightarrow> string"
  imp_parsePreferHeader :: "string \<Rightarrow> (string \<times> jsval) list"
  imp_draw :: "decode_error \<Rightarrow> string"
  imp_toProblemJson :: "js_error \<Rightarrow> (string \<times> jsval) list"
  imp_VIOLATIONS :: problem_template

definition VIOLATIONS_detail :: string where
  "VIOLATIONS_detail = ''Your request/response is not valid and the --errors flag is set, so Prism is generating this error for you.''"

text \<open>\<open>headers.get("content-type") ?? undefined\<close>.\<close>

definition content_type_of :: "(string \<times> string) list \<Rightarrow> string option" where
  "content_type_of hs = (case Headers_get hs ''content-type'' of JStr s \<Rightarrow> Some s | _ \<Rightarrow> None)"

text \<open>
  The step after the engine (the callback of \<open>chainIOEitherK\<close>): the violations
  header, the strict-errors branch, and the response. \<open>headers.set\<close>, \<open>serialize\<close> and
  the \<open>Response\<close> constructor are called while the callback runs, so what they throw
  rejects the promise. The flag read is \<open>opts.config.errors\<close>. Logging is left out.
\<close>

definition synthesize :: "imported \<Rightarrow> IHttpConfig \<Rightarrow> IPrismOutput \<Rightarrow> Response task_either" where
  "synthesize lib config response =
     (let headers0 = new_Headers (out_headers (prism_output response));
          inputValidationErrors =
            map (createErrorObjectWithPrefix ''request'') (validations_input response);
          outputValidationErrors =
            map (createErrorObjectWithPrefix ''response'') (validations_output response);
          inputOutputValidationErrors = inputValidationErrors @ outputValidationErrors;
          errorViolations =
            filter (\<lambda>v. severity v = DiagnosticSeverity_name Error) outputValidationErrors
      in case (if length inputOutputValidationErrors > 0
               then addViolationHeader headers0 inputOutputValidationErrors else Inr headers0) of
           Inl e \<Rightarrow> Rejects e
         | Inr headers \<Rightarrow>
             if length inputOutputValidationErrors > 0 \<and> errors config
                \<and> length errorViolations > 0
             then Left (ProblemJsonError_fromTemplate (imp_VIOLATIONS lib) VIOLATIONS_detail
                    (Some \<lparr>add_headers = None, add_validation = Some errorViolations\<rparr>))
             else
               (case serialize (imp_typeIs lib) (imp_build lib) (out_body (prism_output response))
                       (content_type_of headers) of
                  Inl e \<Rightarrow> Rejects e
                | Inr body \<Rightarrow>
                    (case new_Response body headers (statusCode (prism_output response)) of
                       Inl e \<Rightarrow> Rejects e
                     | Inr r \<Rightarrow> Right r)))"

text \<open>The Error Translator (the handler of \<open>TE.orElse\<close>). \<open>e.additional && e.additional.headers\<close>
  is the dictionary of additional headers when there is one; \<open>e.status || 500\<close> takes 500
  for a missing status and for the falsy status 0. What \<open>headers.set\<close> or
  \<open>Response.json\<close> throws inside the handler rejects the promise.\<close>

definition additional_headers :: "js_error \<Rightarrow> (string \<times> string) list option" where
  "additional_headers e = (case err_additional e of None \<Rightarrow> None | Some a \<Rightarrow> add_headers a)"

text \<open>\<open>entries.forEach(([name, value]) => headers.set(name, value))\<close>: the first
  \<open>set\<close> that throws ends the loop.\<close>

fun set_each :: "(string \<times> string) list \<Rightarrow> (string \<times> string) list \<Rightarrow> js_error + (string \<times> string) list" where
  "set_each [] hs = Inr hs"
| "set_each (p # ps) hs =
     (case Headers_set (fst p) (snd p) hs of
        Inl e \<Rightarrow> Inl e
      | Inr hs' \<Rightarrow> set_each ps hs')"

definition error_translator :: "imported \<Rightarrow> js_error \<Rightarrow> Response task_either" where
  "error_translator lib e =
     (case Headers_set ''content-type'' ''application/problem+json'' [] of
        Inl t \<Rightarrow> Rejects t
      | Inr headers \<Rightarrow>
          (case (case additional_headers e of
                   None \<Rightarrow> Inr headers
                 | Some hs \<Rightarrow> set_each hs headers) of
             Inl t \<Rightarrow> Rejects t
           | Inr headers' \<Rightarrow>
               (case Response_json (JObj (imp_toProblemJson lib e)) headers'
                       (case err_status e of None \<Rightarrow> 500 | Some s \<Rightarrow> if s \<noteq> 0 then s else 500) of
                  Inl t \<Rightarrow> Rejects t
                | Inr r \<Rightarrow> Right r)))"

text \<open>The pipe of \<open>fetch\<close>, from the request configuration on. The engine
  (\<open>prism.request\<close>, with the operations it is closed over) is a parameter.\<close>

definition pipeline ::
  "imported \<Rightarrow> IHttpConfig \<Rightarrow> (IHttpRequest \<Rightarrow> IHttpConfig \<Rightarrow> IPrismOutput task_either)
     \<Rightarrow> IHttpRequest \<Rightarrow> js_error + IHttpConfig \<Rightarrow> Response task_either" where
  "pipeline lib config prism_request input rc =
     TE_orElse (error_translator lib)
       (TE_chain (synthesize lib config)
          (TE_chain (\<lambda>c. prism_request input c) (TE_fromEither rc)))"

section \<open>Request Normalizer: the body, and \<open>fetch\<close>\<close>

text \<open>
  The \<open>Request\<close> as \<open>fetch\<close> reads it: the method, the path and the search parameters of
  its URL, its headers, and the text of its body (empty when there is none).
  \<open>request.json()\<close> rejects with a \<open>SyntaxError\<close> where \<open>JSON.parse\<close> throws;
  \<open>request.text()\<close> gives the text. On primitive values \<open>===\<close> is equality. The imported
  \<open>typeIs\<close> answers false for a value that is not a string.
\<close>

record Request =
  request_method :: string
  request_pathname :: string
  request_searchParams :: "(string \<times> string) list"
  request_headers :: "(string \<times> string) list"
  request_body :: string

definition strict_equals :: "jsval \<Rightarrow> jsval \<Rightarrow> bool" where
  "strict_equals a b = (a = b)"

definition typeIs_value :: "(string \<Rightarrow> string list \<Rightarrow> bool) \<Rightarrow> jsval \<Rightarrow> string list \<Rightarrow> bool" where
  "typeIs_value typeIs v types = (case v of JStr s \<Rightarrow> typeIs s types | _ \<Rightarrow> False)"

definition SyntaxError :: js_error where
  "SyntaxError = (new_Error ''Unexpected token in JSON'')\<lparr>err_name := ''SyntaxError''\<rparr>"

definition Request_json :: "Request \<Rightarrow> js_error + jsval" where
  "Request_json request =
     (case JSON_parse (request_body request) of None \<Rightarrow> Inl SyntaxError | Some v \<Rightarrow> Inr v)"

definition Request_text :: "Request \<Rightarrow> js_error + jsval" where
  "Request_text request = Inr (JStr (request_body request))"

definition parseRequestBody :: "(string \<Rightarrow> string list \<Rightarrow> bool) \<Rightarrow> Request \<Rightarrow> js_error + jsval" where
  "parseRequestBody typeIs request =
     (if strict_equals (Headers_get (request_headers request) ''content-length'') (JStr ''0'')
         \<or> (strict_equals (Headers_get (request_headers request) ''transfer-encoding'') JUndefined
             \<and> strict_equals (Headers_get (request_headers request) ''content-length'') JUndefined)
      then Inr JNull
      else if typeIs_value typeIs (Headers_get (request_headers request) ''content-type'')
                [''application/json'', ''application/*+json'']
           then Request_json request
           else Request_text request)"

text \<open>
  \<open>fetch\<close>: the body is awaited before the pipe, so a rejected body rejects \<open>fetch\<close>;
  a rejected pipe rejects it too; a \<open>Left\<close> after \<open>orElse\<close> would throw \<open>unreachable\<close>.
\<close>

definition fetch ::
  "imported \<Rightarrow> IHttpConfig \<Rightarrow> (IHttpRequest \<Rightarrow> IHttpConfig \<Rightarrow> IPrismOutput task_either)
     \<Rightarrow> Request \<Rightarrow> js_error + Response" where
  "fetch lib config prism_request request =
     (case parseRequestBody (imp_typeIs lib) request of
        Inl e \<Rightarrow> Inl e
      | Inr body \<Rightarrow>
          (let input =
                 \<lparr>req_method =
                    (if request_method request \<noteq> [] then map lower_char (request_method request)
                     else ''get''),
                  url_path = request_pathname request,
                  url_baseUrl =
                    (case URLSearchParams_get (request_searchParams request) ''__server'' of
                       None \<Rightarrow> None
                     | Some s \<Rightarrow> if s \<noteq> [] then Some s else None),
                  url_query = searchParamsToNameValues (request_searchParams request),
                  req_headers = request_headers request,
                  req_body = body\<rparr>;
               rc =
                 (case getHttpConfigFromRequest (imp_parsePreferHeader lib) (imp_draw lib) input of
                    Inl e \<Rightarrow> Inl e
                  | Inr operationSpecificConfig \<Rightarrow> Inr (requestConfig config operationSpecificConfig))
           in case pipeline lib config prism_request input rc of
                Rejects e \<Rightarrow> Inl e
              | Left e \<Rightarrow> Inl (new_Error ''unreachable'')
              | Right r \<Rightarrow> Inr r))"

section \<open>The server of \<open>main.ts\<close>\<close>

text \<open>The baseline configuration \<open>main.ts\<close> passes to \<open>createServer\<close>.\<close>

definition main_config :: IHttpConfig where
  "main_config =
     \<lparr>checkSecurity = True, validateRequest = True, validateResponse = True,
      mock = [(''dynamic'', JBool False)], errors = False, upstreamProxy = None,
      isProxy = False\<rparr>"

text \<open>Sample values for the closed examples: stand-ins for the imported functions, a
  \<open>GET /pets\<close> request, and an engine output with no headers and no violations.\<close>

definition sample_imported :: imported where
  "sample_imported =
     \<lparr>imp_typeIs = (\<lambda>v ts. False), imp_build = (\<lambda>d. []), imp_parsePreferHeader = (\<lambda>h. []),
      imp_draw = (\<lambda>e. []), imp_toProblemJson = (\<lambda>e. [(''title'', JStr (err_message e))]),
      imp_VIOLATIONS = \<lparr>tpl_type = ''VIOLATIONS'', tpl_title = ''Request/Response not valid'',
        tpl_status = 500\<rparr>\<rparr>"

definition sample_request :: IHttpRequest where
  "sample_request =
     \<lparr>req_method = ''get'', url_path = ''/pets'', url_baseUrl = None, url_query = [],
      req_headers = [], req_body = JNull\<rparr>"

definition sample_output :: "jsval \<Rightarrow> IPrismOutput" where
  "sample_output body =
     \<lparr>prism_output = \<lparr>statusCode = 200, out_headers = [], out_body = body\<rparr>,
      validations_input = [], validations_output = []\<rparr>"


definition sample_diagnostic :: "DiagnosticSeverity \<Rightarrow> IPrismDiagnostic" where
  "sample_diagnostic s =
     \<lparr>diag_path = Some [''body'', ''name''], diag_severity = s, diag_code = JStr ''required'',
      diag_message = Some ''must have required property''\<rparr>"

text \<open>The baseline configuration of \<open>main.ts\<close> in a store: the configuration object at
  address 0, its \<open>mock\<close> object at address 1.\<close>

definition main_store :: store where
  "main_store =
     [[(''checkSecurity'', Prim (JBool True)), (''validateRequest'', Prim (JBool True)),
       (''validateResponse'', Prim (JBool True)), (''mock'', Ref 1),
       (''errors'', Prim (JBool False)), (''upstreamProxy'', Prim JUndefined),
       (''isProxy'', Prim (JBool False))],
      [(''dynamic'', Prim (JBool False))]]"

text \<open>An engine output with one output violation of severity \<open>Error\<close>.\<close>

definition strict_output :: IPrismOutput where
  "strict_output =
     (sample_output JNull)\<lparr>validations_output := [sample_diagnostic Error]\<rparr>"

text \<open>A \<open>POST /pets\<close> request with the given headers and body text.\<close>

definition bare_request :: "(string \<times> string) list \<Rightarrow> string \<Rightarrow> Request" where
  "bare_request hs b =
     \<lparr>request_method = ''POST'', request_pathname = ''/pets'', request_searchParams = [],
      request_headers = hs, request_body = b\<rparr>"

section \<open>Properties of headers\<close>

lemma lower_char_lowercase [simp]:
  "lower_char CHR ''a'' = CHR ''a''" "lower_char CHR ''b'' = CHR ''b''"
  "lower_char CHR ''c'' = CHR ''c''" "lower_char CHR ''d'' = CHR ''d''"
  "lower_char CHR ''e'' = CHR ''e''" "lower_char CHR ''f'' = CHR ''f''"
  "lower_char CHR ''g'' = CHR ''g''" "lower_char CHR ''h'' = CHR ''h''"
  "lower_char CHR ''i'' = CHR ''i''" "lower_char CHR ''j'' = CHR ''j''"
  "lower_char CHR ''k'' = CHR ''k''" "lower_char CHR ''l'' = CHR ''l''"
  "lower_char CHR ''m'' = CHR ''m''" "lower_char CHR ''n'' = CHR ''n''"
  "lower_char CHR ''o'' = CHR ''o''" "lower_char CHR ''p'' = CHR ''p''"
  "lower_char CHR ''q'' = CHR ''q''" "lower_char CHR ''r'' = CHR ''r''"
  "lower_char CHR ''s'' = CHR ''s''" "lower_char CHR ''t'' = CHR ''t''"
  "lower_char CHR ''u'' = CHR ''u''" "lower_char CHR ''v'' = CHR ''v''"
  "lower_char CHR ''w'' = CHR ''w''" "lower_char CHR ''x'' = CHR ''x''"
  "lower_char CHR ''y'' = CHR ''y''" "lower_char CHR ''z'' = CHR ''z''"
  "lower_char CHR ''-'' = CHR ''-''"
  by (simp_all add: lower_char_def)


lemma Headers_get_append_other:
  assumes "map lower_char k \<noteq> map lower_char n"
  shows "Headers_get (Headers_append n v hs) k = Headers_get hs k"
  using assms
  by (simp add: Headers_get_def Headers_append_def update_conv' map_add_def split: option.splits)

lemma new_Response_sl:
  assumes "new_Response body hs st = Inr r"
  shows "Headers_get (resp_headers r) ''sl-violations'' = Headers_get hs ''sl-violations''"
  using assms
  by (auto simp add: new_Response_def Headers_get_append_other split: option.splits)

text \<open>The names the adapter itself gives to \<open>set\<close> are tokens.\<close>

lemma header_name_content_type: "is_header_name ''content-type''"
  by code_simp

lemma header_name_sl_violations: "is_header_name ''sl-violations''"
  by code_simp

text \<open>A value with no white space at either end is not changed by \<open>set\<close>.\<close>

lemma normalize_value_id:
  assumes "v \<noteq> []" and "\<not> http_whitespace (hd v)" and "\<not> http_whitespace (last v)"
  shows "normalize_value v = v"
proof -
  from assms(1,2) have a: "dropWhile http_whitespace v = v"
    by (cases v) simp_all
  from assms(1,3) have "dropWhile http_whitespace (rev v) = rev v"
    by (cases v rule: rev_cases) simp_all
  with a show ?thesis
    by (simp add: normalize_value_def)
qed

lemma Headers_get_set:
  assumes "Headers_set n v hs = Inr hs'"
  shows "Headers_get hs' n = JStr (normalize_value v)"
  using assms
  by (auto simp add: Headers_get_def Headers_set_def update_conv' split: if_splits)

section \<open>Properties of the violations header\<close>

text \<open>\<open>JSON.stringify\<close> escapes every control character: its text has none.\<close>

lemma hex_digit_code: "d < 16 \<Longrightarrow> 32 \<le> (of_char (hex_digit d) :: nat)"
  by (simp add: hex_digit_def)

lemma quote_char_codes: "x \<in> set (quote_char c) \<Longrightarrow> 32 \<le> (of_char x :: nat)"
  by (auto simp add: quote_char_def Let_def hex_digit_code split: if_splits)

lemma QuoteJSONString_codes: "x \<in> set (QuoteJSONString s) \<Longrightarrow> 32 \<le> (of_char x :: nat)"
  by (auto simp add: QuoteJSONString_def quote_char_codes)

lemma show_nat_codes: "x \<in> set (show_nat n) \<Longrightarrow> 32 \<le> (of_char x :: nat)"
proof (induction n arbitrary: x rule: show_nat.induct)
  case (1 n)
  show ?case
  proof (cases "n < 10")
    case True
    with "1.prems" show ?thesis
      by (simp add: show_nat.simps [of n])
  next
    case False
    have "n mod 10 < 10" by simp
    then have "32 \<le> (of_char (char_of (48 + n mod 10)) :: nat)"
      by simp
    with False "1.prems" "1.IH" show ?thesis
      by (auto simp add: show_nat.simps [of n])
  qed
qed

lemma show_int_codes: "x \<in> set (show_int i) \<Longrightarrow> 32 \<le> (of_char x :: nat)"
  by (auto simp add: show_int_def show_nat_codes split: if_splits)

lemma join_comma_codes:
  assumes "\<And>e x. e \<in> set es \<Longrightarrow> x \<in> set e \<Longrightarrow> 32 \<le> (of_char x :: nat)"
    and "x \<in> set (join_comma es)"
  shows "32 \<le> (of_char x :: nat)"
  using assms
proof (induction es arbitrary: x rule: join_comma.induct)
  case 1
  then show ?case by simp
next
  case (2 e)
  then show ?case by simp
next
  case (3 e f fs)
  from "3.prems"(2) have "x \<in> set e \<or> x = CHR '','' \<or> x \<in> set (join_comma (f # fs))"
    by auto
  then show ?case
  proof (elim disjE)
    assume "x \<in> set e"
    then show ?thesis using "3.prems"(1) [of e x] by simp
  next
    assume "x = CHR '',''"
    then show ?thesis by simp
  next
    assume a: "x \<in> set (join_comma (f # fs))"
    show ?thesis
      by (rule "3.IH" [OF _ a]) (use "3.prems"(1) in auto)
  qed
qed

lemma JSON_stringify_codes:
  "(\<forall>s x. JSON_stringify v = Some s \<longrightarrow> x \<in> set s \<longrightarrow> 32 \<le> (of_char x :: nat))"
  "(\<forall>e x. e \<in> set (JSON_elements xs) \<longrightarrow> x \<in> set e \<longrightarrow> 32 \<le> (of_char x :: nat))"
  "(\<forall>e x. e \<in> set (JSON_members ps) \<longrightarrow> x \<in> set e \<longrightarrow> 32 \<le> (of_char x :: nat))"
proof (induction v and xs and ps rule: JSON_stringify_JSON_elements_JSON_members.induct)
  case 1
  then show ?case by simp
next
  case 2
  then show ?case by auto
next
  case (3 b)
  then show ?case by auto
next
  case (4 n)
  then show ?case by (auto simp add: show_int_codes)
next
  case (5 s)
  then show ?case by (auto simp add: QuoteJSONString_codes)
next
  case (6 xs)
  then show ?case
    by (auto intro: join_comma_codes [of "JSON_elements xs"])
next
  case (7 ps)
  then show ?case
    by (auto intro: join_comma_codes [of "JSON_members ps"])
next
  case 8
  then show ?case by simp
next
  case (9 x xs)
  then show ?case by (auto split: option.splits)
next
  case 10
  then show ?case by simp
next
  case (11 k v ps)
  then show ?case by (auto simp add: QuoteJSONString_codes split: option.splits)
qed

lemma char_eqI: "(of_char c :: nat) = of_char d \<Longrightarrow> c = d"
  by simp

lemma whitespace_space:
  assumes "32 \<le> (of_char x :: nat)"
  shows "http_whitespace x \<longleftrightarrow> x = CHR '' ''"
proof
  assume "http_whitespace x"
  with assms have "(of_char x :: nat) = of_char CHR '' ''"
    by (simp add: http_whitespace_def)
  then show "x = CHR '' ''" by (rule char_eqI)
next
  assume "x = CHR '' ''"
  then show "http_whitespace x" by (simp add: http_whitespace_def)
qed

text \<open>What \<open>set\<close> keeps of the notice followed by a text \<open>t\<close> of \<open>JSON.stringify\<close> that
  starts with a bracket: the blanks at the end of \<open>t\<close> are removed.\<close>

lemma normalize_notice:
  assumes codes: "\<And>x. x \<in> set t \<Longrightarrow> 32 \<le> (of_char x :: nat)"
    and ne: "t \<noteq> []" and hd: "hd t = CHR ''[''"
  shows "normalize_value (''Too many violations! '' @ t) =
           ''Too many violations! '' @ rev (dropWhile (\<lambda>c. c = CHR '' '') (rev t))"
    and "is_header_value (''Too many violations! '' @ rev (dropWhile (\<lambda>c. c = CHR '' '') (rev t)))"
proof -
  let ?sp = "\<lambda>c. c = CHR '' ''"
  have front: "dropWhile http_whitespace (''Too many violations! '' @ t) =
      ''Too many violations! '' @ t"
    by (simp add: http_whitespace_def)
  have br: "CHR ''['' \<in> set (rev t)"
    using ne hd by (cases t) auto
  have nb: "\<not> http_whitespace CHR ''[''"
    by (simp add: http_whitespace_def)
  have cong: "dropWhile http_whitespace (rev t) = dropWhile ?sp (rev t)"
    by (rule dropWhile_cong) (simp_all add: whitespace_space codes)
  have rear: "dropWhile http_whitespace (rev t @ rev ''Too many violations! '') =
      dropWhile ?sp (rev t) @ rev ''Too many violations! ''"
    using dropWhile_append1 [of "CHR ''[''" "rev t" http_whitespace "rev ''Too many violations! ''"]
      br nb cong by simp
  have "normalize_value (''Too many violations! '' @ t) =
      rev (dropWhile http_whitespace (rev t @ rev ''Too many violations! ''))"
    unfolding normalize_value_def front by simp
  also have "\<dots> = ''Too many violations! '' @ rev (dropWhile ?sp (rev t))"
    unfolding rear by simp
  finally show "normalize_value (''Too many violations! '' @ t) =
           ''Too many violations! '' @ rev (dropWhile ?sp (rev t))" .
  define d where "d = dropWhile ?sp (rev t)"
  have dne: "d \<noteq> []"
    unfolding d_def using br by auto
  then have "\<not> ?sp (hd d)"
    unfolding d_def by (rule hd_dropWhile)
  moreover have dt: "set d \<subseteq> set t"
    unfolding d_def using set_dropWhileD [of _ ?sp "rev t"] by auto
  moreover have "hd d \<in> set d"
    using dne by simp
  ultimately have lastok: "\<not> http_whitespace (hd d)"
    using whitespace_space codes by blast
  have lst: "last (''Too many violations! '' @ rev d) = hd d"
    using dne by (simp add: last_rev)
  have all: "(of_char x :: nat) \<notin> {0, 10, 13}"
    if "x \<in> set (''Too many violations! '' @ rev d)" for x
  proof -
    from that dt have "x \<in> set ''Too many violations! '' \<or> x \<in> set t"
      by auto
    then show ?thesis
    proof
      assume "x \<in> set ''Too many violations! ''"
      then show ?thesis by auto
    next
      assume "x \<in> set t"
      from codes [OF this] show ?thesis by simp
    qed
  qed
  have "is_header_value (''Too many violations! '' @ rev d)"
    unfolding is_header_value_def lst list_all_iff
    using all lastok by (simp add: http_whitespace_def)
  then show "is_header_value (''Too many violations! '' @ rev (dropWhile ?sp (rev t)))"
    unfolding d_def .
qed

text \<open>The text of an array is kept as it is.\<close>

lemma normalize_array:
  assumes enc: "JSON_stringify (JArr xs) = Some enc"
  shows "normalize_value enc = enc" and "is_header_value enc"
proof -
  from enc obtain m where m: "enc = CHR ''['' # m @ '']''"
    by auto
  have h: "\<not> http_whitespace (hd enc)" "\<not> http_whitespace (last enc)" "enc \<noteq> []"
    by (simp_all add: m http_whitespace_def)
  then show "normalize_value enc = enc"
    by (simp add: normalize_value_id)
  have "x \<in> set enc \<Longrightarrow> (of_char x :: nat) \<notin> {0, 10, 13}" for x
    using JSON_stringify_codes(1) [of "JArr xs"] enc by fastforce
  then show "is_header_value enc"
    unfolding is_header_value_def list_all_iff using h by simp
qed

lemma addViolationHeader_sets:
  assumes "validationErrors \<noteq> []"
    and enc: "JSON_stringify (JArr (map ValidationError_json validationErrors)) = Some enc"
  shows "\<exists>hs'. addViolationHeader replyHeaders validationErrors = Inr hs'
     \<and> Headers_get hs' ''sl-violations'' =
         JStr (if length enc > 8092
               then ''Too many violations! ''
                    @ rev (dropWhile (\<lambda>c. c = CHR '' '') (rev (take 8092 enc)))
               else enc)"
proof (cases "length enc > 8092")
  case True
  let ?t = "take 8092 enc"
  from enc obtain m where m: "enc = CHR ''['' # m @ '']''"
    by auto
  have codes: "\<And>x. x \<in> set ?t \<Longrightarrow> 32 \<le> (of_char x :: nat)"
    using JSON_stringify_codes(1) [of "JArr (map ValidationError_json validationErrors)"] enc
      in_set_takeD by fast
  have ne: "?t \<noteq> []" using True by auto
  have hd: "hd ?t = CHR ''[''" by (simp add: m)
  note n = normalize_notice [of ?t, OF codes ne hd]
  have "addViolationHeader replyHeaders validationErrors =
      Headers_set ''sl-violations'' (''Too many violations! '' @ ?t) replyHeaders"
    using assms(1) enc True
    by (simp add: addViolationHeader_def Let_def MAX_SAFE_HEADER_LENGTH_def
        del: JSON_stringify.simps)
  also have "\<dots> = Inr (AList.update (map lower_char ''sl-violations'')
      (''Too many violations! '' @ rev (dropWhile (\<lambda>c. c = CHR '' '') (rev ?t))) replyHeaders)"
    using n header_name_sl_violations by (simp add: Headers_set_def)
  finally show ?thesis
    using True by (simp add: Headers_get_def update_conv')
next
  case False
  note n = normalize_array [OF enc]
  have "addViolationHeader replyHeaders validationErrors =
      Headers_set ''sl-violations'' enc replyHeaders"
    using assms(1) enc False
    by (simp add: addViolationHeader_def Let_def MAX_SAFE_HEADER_LENGTH_def
        del: JSON_stringify.simps)
  also have "\<dots> = Inr (AList.update (map lower_char ''sl-violations'') enc replyHeaders)"
    using n header_name_sl_violations by (simp add: Headers_set_def)
  finally show ?thesis
    using False by (simp add: Headers_get_def update_conv')
qed


lemma quote_replicate:
  assumes "32 \<le> (of_char c :: nat)" and "c \<noteq> CHR 0x22" and "c \<noteq> CHR 0x5C"
  shows "concat (replicate n (quote_char c)) = replicate n c"
proof -
  have "(of_char c :: nat) \<noteq> 34" "(of_char c :: nat) \<noteq> 92"
    using assms(2,3) char_eqI [of c "CHR 0x22"] char_eqI [of c "CHR 0x5C"] by auto
  with assms(1) have "quote_char c = [c]"
    by (simp add: quote_char_def)
  then show ?thesis
    by (induction n) simp_all
qed

lemma long_violation_encoding:
  assumes "32 \<le> (of_char c :: nat)" and "c \<noteq> CHR 0x22" and "c \<noteq> CHR 0x5C"
  shows "JSON_stringify (JArr (map ValidationError_json [long_violation c n])) =
     Some (''[{'' @ QuoteJSONString ''location'' @ '':['' @ QuoteJSONString ''request'' @ ''],''
        @ QuoteJSONString ''severity'' @ '':'' @ QuoteJSONString ''Error'' @ '',''
        @ QuoteJSONString ''message'' @ '':'' @ [CHR 0x22] @ replicate n c
        @ [CHR 0x22] @ ''}]'')"
  by (simp add: long_violation_def ValidationError_json_def of_opt_string_def
      QuoteJSONString_def [of "replicate n c"] quote_replicate [OF assms])

lemma long_violation_length:
  assumes "32 \<le> (of_char c :: nat)" and "c \<noteq> CHR 0x22" and "c \<noteq> CHR 0x5C"
  shows "length (the (JSON_stringify (JArr (map ValidationError_json [long_violation c n])))) =
    58 + n"
  unfolding long_violation_encoding [OF assms] by (simp add: QuoteJSONString_def quote_char_def)

text \<open>
  Claim C3, as the code has it. For a non-empty violation list the \<open>sl-violations\<close>
  header is always set on the reply headers (\<open>set\<close> does not throw), and it is on the
  response whenever the step after the engine builds the response. The cap
  \<open>MAX_SAFE_HEADER_LENGTH\<close> is \<open>8 * 1024 - 100 = 8092\<close>: an encoding longer than 8092
  characters is cut to its first 8092 characters and prefixed with the notice, and \<open>set\<close>
  removes the blanks at the end of the cut; every other encoding is the header value as
  it is.
\<close>

theorem violation_header_cap:
  assumes "validationErrors \<noteq> []"
  shows "\<exists>enc hs'. JSON_stringify (JArr (map ValidationError_json validationErrors)) = Some enc
     \<and> addViolationHeader replyHeaders validationErrors = Inr hs'
     \<and> Headers_get hs' ''sl-violations'' =
         JStr (if length enc > 8092
               then ''Too many violations! ''
                    @ rev (dropWhile (\<lambda>c. c = CHR '' '') (rev (take 8092 enc)))
               else enc)
     \<and> (\<forall>lib config response resp.
           validationErrors =
             map (createErrorObjectWithPrefix ''request'') (validations_input response) @
             map (createErrorObjectWithPrefix ''response'') (validations_output response) \<longrightarrow>
           synthesize lib config response = Right resp \<longrightarrow>
           Headers_get (resp_headers resp) ''sl-violations'' =
             JStr (if length enc > 8092
                   then ''Too many violations! ''
                        @ rev (dropWhile (\<lambda>c. c = CHR '' '') (rev (take 8092 enc)))
                   else enc))"
proof -
  obtain enc where enc: "JSON_stringify (JArr (map ValidationError_json validationErrors)) = Some enc"
    by simp
  let ?v = "JStr (if length enc > 8092
               then ''Too many violations! ''
                    @ rev (dropWhile (\<lambda>c. c = CHR '' '') (rev (take 8092 enc)))
               else enc)"
  have h: "\<exists>hs'. addViolationHeader hs validationErrors = Inr hs'
      \<and> Headers_get hs' ''sl-violations'' = ?v" for hs
    using addViolationHeader_sets [OF assms enc] .
  have "Headers_get (resp_headers resp) ''sl-violations'' = ?v"
    if ve: "validationErrors =
             map (createErrorObjectWithPrefix ''request'') (validations_input response) @
             map (createErrorObjectWithPrefix ''response'') (validations_output response)"
      and r: "synthesize lib config response = Right resp" for lib config response resp
  proof -
    from assms ve have ne: "validations_input response \<noteq> [] \<or> validations_output response \<noteq> []"
      by auto
    obtain hs' where hs': "addViolationHeader (new_Headers (out_headers (prism_output response)))
        validationErrors = Inr hs'" "Headers_get hs' ''sl-violations'' = ?v"
      using h by blast
    from r ne hs'(1) obtain body where
      "new_Response body hs' (statusCode (prism_output response)) = Inr resp"
      unfolding synthesize_def Let_def ve [symmetric]
      by (auto simp add: ve split: if_splits sum.splits)
    then show ?thesis
      using new_Response_sl hs'(2) by simp
  qed
  with enc h [of replyHeaders] show ?thesis by blast
qed

lemma long_violation_take:
  assumes "32 \<le> (of_char c :: nat)" and "c \<noteq> CHR 0x22" and "c \<noteq> CHR 0x5C"
    and "8037 \<le> n"
  shows "take 8092 (the (JSON_stringify (JArr (map ValidationError_json [long_violation c n])))) =
     ''[{'' @ QuoteJSONString ''location'' @ '':['' @ QuoteJSONString ''request'' @ ''],''
        @ QuoteJSONString ''severity'' @ '':'' @ QuoteJSONString ''Error'' @ '',''
        @ QuoteJSONString ''message'' @ '':'' @ [CHR 0x22] @ replicate 8037 c"
  unfolding long_violation_encoding [OF assms(1-3)] using assms(4)
  by (simp add: QuoteJSONString_def quote_char_def min_def)

lemma dropWhile_replicate: "P x \<Longrightarrow> dropWhile P (replicate n x @ ys) = dropWhile P ys"
  by (induction n) simp_all

lemma trim_blanks:
  "rev (dropWhile (\<lambda>c. c = CHR '' '') (rev (xs @ [CHR 0x22] @ replicate n CHR '' ''))) =
     xs @ [CHR 0x22]"
  by (simp add: dropWhile_replicate)

lemma trim_letters:
  "rev (dropWhile (\<lambda>c. c = CHR '' '') (rev (xs @ [CHR 0x22] @ replicate (Suc n) CHR ''a''))) =
     xs @ [CHR 0x22] @ replicate (Suc n) CHR ''a''"
  by (simp add: replicate_append_same)

theorem violation_header_cap_witness:
  "(\<exists>hs'. addViolationHeader [] [long_violation CHR '' '' 8100] = Inr hs'
      \<and> Headers_get hs' ''sl-violations'' =
          JStr ''Too many violations! [{\"location\":[\"request\"],\"severity\":\"Error\",\"message\":\"'')
   \<and> (\<exists>resp. synthesize sample_imported main_config
          ((sample_output JNull)\<lparr>validations_input := [sample_diagnostic Warning]\<rparr>) = Right resp
        \<and> Headers_get (resp_headers resp) ''sl-violations'' =
            JStr ''[{\"location\":[\"request\",\"body\",\"name\"],\"severity\":\"Warning\",\"code\":\"required\",\"message\":\"must have required property\"}]'')"
proof -
  let ?V = "[long_violation CHR '' '' 8100]"
  let ?enc = "the (JSON_stringify (JArr (map ValidationError_json ?V)))"
  have sp: "32 \<le> (of_char CHR '' '' :: nat)" "CHR '' '' \<noteq> CHR 0x22" "CHR '' '' \<noteq> CHR 0x5C"
    by simp_all
  have len: "length ?enc = 8158"
    unfolding long_violation_length [OF sp] by simp
  have tk0: "take 8092 ?enc =
      ''[{\"location\":[\"request\"],\"severity\":\"Error\",\"message\":'' @ [CHR 0x22]
        @ replicate 8037 CHR '' ''"
    using long_violation_take [OF sp, of 8100]
    by (simp add: QuoteJSONString_def quote_char_def del: JSON_stringify.simps)
  have tk: "''Too many violations! '' @ rev (dropWhile (\<lambda>c. c = CHR '' '') (rev (take 8092 ?enc))) =
      ''Too many violations! [{\"location\":[\"request\"],\"severity\":\"Error\",\"message\":\"''"
    unfolding tk0 trim_blanks by simp
  have ne: "?V \<noteq> []" by simp
  from violation_header_cap [OF ne, of "[]"] obtain enc hs' where
    a: "JSON_stringify (JArr (map ValidationError_json ?V)) = Some enc"
      "addViolationHeader [] ?V = Inr hs'"
      "Headers_get hs' ''sl-violations'' =
         JStr (if length enc > 8092
               then ''Too many violations! ''
                    @ rev (dropWhile (\<lambda>c. c = CHR '' '') (rev (take 8092 enc)))
               else enc)"
    by blast
  from a(1) have e: "enc = ?enc"
    by (simp del: JSON_stringify.simps)
  have "Headers_get hs' ''sl-violations'' =
      JStr ''Too many violations! [{\"location\":[\"request\"],\"severity\":\"Error\",\"message\":\"''"
    unfolding a(3) unfolding e len tk by simp
  with a(2) have first: "\<exists>hs'. addViolationHeader [] ?V = Inr hs'
      \<and> Headers_get hs' ''sl-violations'' =
          JStr ''Too many violations! [{\"location\":[\"request\"],\"severity\":\"Error\",\"message\":\"''"
    by blast
  let ?r = "(sample_output JNull)\<lparr>validations_input := [sample_diagnostic Warning]\<rparr>"
  let ?W = "[createErrorObjectWithPrefix ''request'' (sample_diagnostic Warning)]"
  let ?resp = "\<lparr>resp_status = 200,
        resp_headers = [(''sl-violations'', ''[{\"location\":[\"request\",\"body\",\"name\"],\"severity\":\"Warning\",\"code\":\"required\",\"message\":\"must have required property\"}]'')],
        resp_body = JUndefined\<rparr>"
  have ve: "?W = map (createErrorObjectWithPrefix ''request'') (validations_input ?r) @
      map (createErrorObjectWithPrefix ''response'') (validations_output ?r)"
    by (simp add: sample_output_def)
  have right: "synthesize sample_imported main_config ?r = Right ?resp"
    by code_simp
  have encW: "JSON_stringify (JArr (map ValidationError_json ?W)) =
      Some ''[{\"location\":[\"request\",\"body\",\"name\"],\"severity\":\"Warning\",\"code\":\"required\",\"message\":\"must have required property\"}]''"
    by code_simp
  have lenW: "\<not> length ''[{\"location\":[\"request\",\"body\",\"name\"],\"severity\":\"Warning\",\"code\":\"required\",\"message\":\"must have required property\"}]'' > 8092"
    by simp
  have neW: "?W \<noteq> []" by simp
  from violation_header_cap [OF neW, of "[]"] obtain encw where
    b: "JSON_stringify (JArr (map ValidationError_json ?W)) = Some encw"
      "\<forall>lib config response resp.
           ?W =
             map (createErrorObjectWithPrefix ''request'') (validations_input response) @
             map (createErrorObjectWithPrefix ''response'') (validations_output response) \<longrightarrow>
           synthesize lib config response = Right resp \<longrightarrow>
           Headers_get (resp_headers resp) ''sl-violations'' =
             JStr (if length encw > 8092
                   then ''Too many violations! ''
                        @ rev (dropWhile (\<lambda>c. c = CHR '' '') (rev (take 8092 encw)))
                   else encw)"
    by blast
  from b(1) have ew: "encw = ''[{\"location\":[\"request\",\"body\",\"name\"],\"severity\":\"Warning\",\"code\":\"required\",\"message\":\"must have required property\"}]''"
    unfolding encW by simp
  from b(2) [rule_format, OF ve right]
  have "Headers_get (resp_headers ?resp) ''sl-violations'' =
      JStr ''[{\"location\":[\"request\",\"body\",\"name\"],\"severity\":\"Warning\",\"code\":\"required\",\"message\":\"must have required property\"}]''"
    unfolding ew using lenW by simp
  with right have second: "\<exists>resp. synthesize sample_imported main_config ?r = Right resp
        \<and> Headers_get (resp_headers resp) ''sl-violations'' =
            JStr ''[{\"location\":[\"request\",\"body\",\"name\"],\"severity\":\"Warning\",\"code\":\"required\",\"message\":\"must have required property\"}]''"
    by blast
  from first second show ?thesis by blast
qed

text \<open>
  The claim's cap of 8116 fails: an encoding of 8100 characters does not exceed 8116,
  and the header value is not the untruncated encoding. And the header is not on every
  response: in the strict-errors branch the reply headers are dropped with the normal
  response, and the problem-detail response has no \<open>sl-violations\<close> header.
\<close>

theorem violation_header_8116_counterexample:
  "length (the (JSON_stringify (JArr (map ValidationError_json [long_violation CHR ''a'' 8042])))) = 8100
   \<and> \<not> 8100 > (8116 :: nat)
   \<and> addViolationHeader [] [long_violation CHR ''a'' 8042] =
       Inr [(''sl-violations'', ''Too many violations! '' @ take 8092
          (the (JSON_stringify (JArr (map ValidationError_json [long_violation CHR ''a'' 8042])))))]
   \<and> ''Too many violations! '' @ take 8092
          (the (JSON_stringify (JArr (map ValidationError_json [long_violation CHR ''a'' 8042])))) \<noteq>
       the (JSON_stringify (JArr (map ValidationError_json [long_violation CHR ''a'' 8042])))
   \<and> pipeline sample_imported (main_config\<lparr>errors := True\<rparr>) (\<lambda>input c. Right strict_output)
        sample_request (Inr (main_config\<lparr>errors := True\<rparr>)) =
       Right \<lparr>resp_status = 500,
              resp_headers = [(''content-type'', ''application/problem+json'')],
              resp_body = JStr ''{\"title\":\"Request/Response not valid\"}''\<rparr>
   \<and> Headers_get [(''content-type'', ''application/problem+json'')] ''sl-violations'' = JNull"
proof -
  have strict: "pipeline sample_imported (main_config\<lparr>errors := True\<rparr>)
        (\<lambda>input c. Right strict_output) sample_request
        (Inr (main_config\<lparr>errors := True\<rparr>)) =
       Right \<lparr>resp_status = 500,
              resp_headers = [(''content-type'', ''application/problem+json'')],
              resp_body = JStr ''{\"title\":\"Request/Response not valid\"}''\<rparr>
   \<and> Headers_get [(''content-type'', ''application/problem+json'')] ''sl-violations'' = JNull"
    by code_simp
  let ?V = "[long_violation CHR ''a'' 8042]"
  let ?enc = "the (JSON_stringify (JArr (map ValidationError_json ?V)))"
  have a: "32 \<le> (of_char CHR ''a'' :: nat)" "CHR ''a'' \<noteq> CHR 0x22" "CHR ''a'' \<noteq> CHR 0x5C"
    by simp_all
  have len: "length ?enc = 8100"
    unfolding long_violation_length [OF a] by simp
  have enc: "JSON_stringify (JArr (map ValidationError_json ?V)) = Some ?enc"
    by simp
  have tk0: "take 8092 ?enc =
      ''[{\"location\":[\"request\"],\"severity\":\"Error\",\"message\":'' @ [CHR 0x22]
        @ replicate (Suc 8036) CHR ''a''"
    using long_violation_take [OF a, of 8042]
    by (simp add: QuoteJSONString_def quote_char_def del: JSON_stringify.simps)
  have trim: "rev (dropWhile (\<lambda>c. c = CHR '' '') (rev (take 8092 ?enc))) = take 8092 ?enc"
    unfolding tk0 by (rule trim_letters)
  have codes: "\<And>x. x \<in> set (take 8092 ?enc) \<Longrightarrow> 32 \<le> (of_char x :: nat)"
    using JSON_stringify_codes(1) [of "JArr (map ValidationError_json ?V)"] enc in_set_takeD
    by fast
  have ne: "take 8092 ?enc \<noteq> []" "hd (take 8092 ?enc) = CHR ''[''"
    unfolding tk0 by simp_all
  note n = normalize_notice [of "take 8092 ?enc", OF codes ne, unfolded trim]
  have "addViolationHeader [] ?V =
      Headers_set ''sl-violations'' (''Too many violations! '' @ take 8092 ?enc) []"
    using len
    by (simp add: addViolationHeader_def Let_def MAX_SAFE_HEADER_LENGTH_def
        del: JSON_stringify.simps)
  also have "\<dots> = Inr [(''sl-violations'', ''Too many violations! '' @ take 8092 ?enc)]"
    using n header_name_sl_violations by (simp add: Headers_set_def del: JSON_stringify.simps)
  finally have hv: "addViolationHeader [] ?V =
      Inr [(''sl-violations'', ''Too many violations! '' @ take 8092 ?enc)]" .
  have l2: "length (''Too many violations! '' @ take 8092 ?enc) = 8113"
    using len by simp
  have "''Too many violations! '' @ take 8092 ?enc \<noteq> ?enc"
  proof
    assume "''Too many violations! '' @ take 8092 ?enc = ?enc"
    then have "length (''Too many violations! '' @ take 8092 ?enc) = length ?enc"
      by (rule arg_cong)
    then show False
      unfolding l2 len by simp
  qed
  then show ?thesis
    using hv len strict by simp
qed

section \<open>Properties of the serializers\<close>

lemma find_text_serializer:
  assumes "typeIs ct [''text/*'']"
    and "\<not> typeIs ct [''application/json'', ''application/*+json'']"
    and "\<not> typeIs ct [''application/xml'', ''application/*+xml'']"
  shows "\<exists>e. find (\<lambda>s. test s ct) (serializers typeIs build) = Some e
           \<and> serializer e = text_serializer"
  using assms by (simp add: serializers_def)

text \<open>
  Claim C7. Under a content type that selects the text serializer (it passes the
  \<open>text/*\<close> test and neither earlier test), a string body and an absent
  (\<open>undefined\<close>) body are returned unchanged, and every other body, \<open>null\<close> included,
  makes \<open>serialize\<close> throw the error tagged \<open>NO_COMPLEX_OBJECT_TEXT\<close>, whose status is 500.
\<close>

theorem text_serializer_contract:
  assumes "ct \<noteq> []"
    and "typeIs ct [''text/*'']"
    and "\<not> typeIs ct [''application/json'', ''application/*+json'']"
    and "\<not> typeIs ct [''application/xml'', ''application/*+xml'']"
  shows "serialize typeIs build (JStr s) (Some ct) = Inr (JStr s)
       \<and> serialize typeIs build JUndefined (Some ct) = Inr JUndefined
       \<and> ((\<forall>t. data \<noteq> JStr t) \<and> data \<noteq> JUndefined \<longrightarrow>
            serialize typeIs build data (Some ct) = Inl NO_COMPLEX_OBJECT_TEXT)
       \<and> err_status NO_COMPLEX_OBJECT_TEXT = Some 500
       \<and> err_name NO_COMPLEX_OBJECT_TEXT =
            ''https://stoplight.io/prism/errors#NO_COMPLEX_OBJECT_TEXT''"
proof -
  obtain e where e: "find (\<lambda>s. test s ct) (serializers typeIs build) = Some e"
    "serializer e = text_serializer"
    using find_text_serializer [of typeIs ct build] assms(2-4) by blast
  have sel: "serialize typeIs build d (Some ct) = text_serializer d" for d
    using assms(1) e by (simp add: serialize_def of_opt_string_def)
  have "(\<forall>t. data \<noteq> JStr t) \<and> data \<noteq> JUndefined \<longrightarrow>
      text_serializer data = Inl NO_COMPLEX_OBJECT_TEXT"
    by (cases data) (simp_all add: text_serializer_def)
  then show ?thesis
    by (simp add: sel text_serializer_def NO_COMPLEX_OBJECT_TEXT_def)
qed

theorem text_serializer_contract_witness:
  "serialize (\<lambda>v ts. v = ''text/plain'' \<and> ts = [''text/*'']) (\<lambda>d. [])
       (JStr ''hi'') (Some ''text/plain'') = Inr (JStr ''hi'')
   \<and> serialize (\<lambda>v ts. v = ''text/plain'' \<and> ts = [''text/*'']) (\<lambda>d. [])
       (JObj [(''a'', JNum 1)]) (Some ''text/plain'') = Inl NO_COMPLEX_OBJECT_TEXT"
  using text_serializer_contract [of "''text/plain''"
      "\<lambda>v ts. v = ''text/plain'' \<and> ts = [''text/*'']" "\<lambda>d. []" "''hi''"
      "JObj [(''a'', JNum 1)]"]
  by simp

text \<open>
  Claim C10, as the code has it. With no content type, a truthy body that is not a
  string makes \<open>serialize\<close> throw a plain \<open>Error\<close> (no status, no tag); a non-empty
  string passes through unchanged; every falsy body (\<open>undefined\<close>, \<open>null\<close>, \<open>false\<close>,
  \<open>0\<close> and the empty string) gives no body.
\<close>

theorem serialize_without_content_type:
  "(truthy payload \<and> typeof payload \<noteq> ''string'' \<longrightarrow>
      serialize typeIs build payload None = Inl (new_Error ''Cannot find serializer for undefined'')
      \<and> err_status (new_Error ''Cannot find serializer for undefined'') = None
      \<and> err_name (new_Error ''Cannot find serializer for undefined'') = ''Error'')
   \<and> (s \<noteq> [] \<longrightarrow> serialize typeIs build (JStr s) None = Inr (JStr s))
   \<and> (\<not> truthy falsy \<longrightarrow> serialize typeIs build falsy None = Inr JUndefined)
   \<and> serialize typeIs build (JStr []) None = Inr JUndefined"
  by (simp add: serialize_def of_opt_string_def new_Error_def)

theorem serialize_without_content_type_witness:
  "serialize (\<lambda>v ts. False) (\<lambda>d. []) (JObj [(''a'', JNum 1)]) None =
       Inl (new_Error ''Cannot find serializer for undefined'')
   \<and> serialize (\<lambda>v ts. False) (\<lambda>d. []) (JStr ''abc'') None = Inr (JStr ''abc'')
   \<and> serialize (\<lambda>v ts. False) (\<lambda>d. []) (JNum 0) None = Inr JUndefined"
  using serialize_without_content_type [of "JObj [(''a'', JNum 1)]" "\<lambda>v ts. False" "\<lambda>d. []" "''abc''"
      "JNum 0"]
  by simp

text \<open>
  The claim fails on the empty string, which does not pass through. And the thrown
  error is not answered by a problem-detail response: \<open>serialize\<close> throws inside the
  step after the engine, the promise rejects, and \<open>orElse\<close> is not run.
\<close>

theorem serialize_without_content_type_counterexample:
  "serialize (imp_typeIs sample_imported) (imp_build sample_imported) (JStr []) None = Inr JUndefined
   \<and> Inr JUndefined \<noteq> (Inr (JStr []) :: js_error + jsval)
   \<and> pipeline sample_imported main_config
        (\<lambda>input c. Right (sample_output (JObj [(''a'', JNum 1)]))) sample_request (Inr main_config) =
       Rejects (new_Error ''Cannot find serializer for undefined'')"
  by code_simp

section \<open>Properties of the query parameters\<close>

lemma fold_assign_lookup:
  "map_of (fold (\<lambda>key params. object_assign key (g key) params) ks acc) k =
     (if k \<in> set ks \<and> k \<noteq> ''__proto__'' then Some (g k) else map_of acc k)"
proof (induction ks arbitrary: acc)
  case Nil
  then show ?case by simp
next
  case (Cons a ks)
  show ?case
    by (simp add: Cons.IH) (auto simp: object_assign_def update_conv')
qed

lemma query_multimap:
  assumes "k \<noteq> ''__proto__''"
  shows "map_of (searchParamsToNameValues sp) k =
     (case URLSearchParams_getAll sp k of
        [] \<Rightarrow> None
      | [v] \<Rightarrow> Some (Scalar v)
      | vs \<Rightarrow> Some (Multi vs))"
proof -
  have mem: "k \<in> set (map fst sp) \<longleftrightarrow> URLSearchParams_getAll sp k \<noteq> []"
    by (induction sp) (auto simp: URLSearchParams_getAll_def)
  show ?thesis
    unfolding searchParamsToNameValues_def Let_def URLSearchParams_keys_def
    using assms mem
    by (simp add: fold_assign_lookup split: list.splits)
qed

text \<open>
  Claim C6 at the query \<open>?__proto__=1\<close>: the key occurs once and the result has no
  property for it.
\<close>

theorem query_proto_dropped:
  "searchParamsToNameValues [(''__proto__'', ''1'')] = []
   \<and> map_of (searchParamsToNameValues [(''__proto__'', ''1'')]) ''__proto__'' \<noteq> Some (Scalar ''1'')"
  by code_simp

section \<open>Properties of the preference resolver\<close>

lemma decode_code_three_digits:
  assumes "object_get i ''code'' = JStr s" "three_digits s"
  shows "decode_property (pipe_string IntegerFromString) ''code'' i = Inr (Some (parseInt10 s))"
  using assms by (simp add: decode_property_def pipe_string_def D_string_def IntegerFromString_def)

lemma decode_code_malformed:
  assumes "object_get i ''code'' \<noteq> JUndefined"
    and "\<not> (\<exists>s. object_get i ''code'' = JStr s \<and> three_digits s)"
  shows "\<exists>e. decode_property (pipe_string IntegerFromString) ''code'' i = Inl [(''code'', e)]"
  using assms
  by (cases "object_get i ''code''")
     (simp_all add: decode_property_def pipe_string_def D_string_def IntegerFromString_def)

lemma decode_absent:
  assumes "object_get i key = JUndefined"
  shows "decode_property d key i = Inr None"
  using assms by (simp add: decode_property_def)

lemma decoder_succeeds:
  assumes "PreferencesDecoder_decode i = Inr p"
  shows "decode_property (pipe_string IntegerFromString) ''code'' i = Inr (pref_code p)
       \<and> decode_property (pipe_string BooleanFromString) ''dynamic'' i = Inr (pref_dynamic p)
       \<and> decode_property D_string ''example'' i = Inr (pref_example p)"
  using assms by (auto simp add: PreferencesDecoder_decode_def Let_def split: sum.splits)

lemma decoder_total:
  assumes "decode_property (pipe_string IntegerFromString) ''code'' i = Inr c"
    and "decode_property (pipe_string BooleanFromString) ''dynamic'' i = Inr d"
    and "decode_property D_string ''example'' i = Inr e"
  shows "PreferencesDecoder_decode i = Inr \<lparr>pref_code = c, pref_dynamic = d, pref_example = e\<rparr>"
  using assms by (simp add: PreferencesDecoder_decode_def Let_def)

lemma decode_dynamic_ok:
  assumes "object_get i ''dynamic'' \<in> {JUndefined, JStr ''true'', JStr ''false''}"
  shows "\<exists>d. decode_property (pipe_string BooleanFromString) ''dynamic'' i = Inr d"
  using assms
  by (auto simp add: decode_property_def pipe_string_def D_string_def BooleanFromString_def)

lemma decode_dynamic_malformed:
  assumes "object_get i ''dynamic'' \<notin> {JUndefined, JStr ''true'', JStr ''false''}"
  shows "\<exists>e. decode_property (pipe_string BooleanFromString) ''dynamic'' i = Inl e"
  using assms
  by (cases "object_get i ''dynamic''")
     (simp_all add: decode_property_def pipe_string_def D_string_def BooleanFromString_def)

lemma decode_example_ok:
  assumes "object_get i ''example'' = JUndefined \<or> (\<exists>e. object_get i ''example'' = JStr e)"
  shows "\<exists>e. decode_property D_string ''example'' i = Inr e"
  using assms by (auto simp add: decode_property_def D_string_def)

lemma decode_example_malformed:
  assumes "object_get i ''example'' \<noteq> JUndefined" and "\<forall>e. object_get i ''example'' \<noteq> JStr e"
  shows "\<exists>e. decode_property D_string ''example'' i = Inl e"
  using assms
  by (cases "object_get i ''example''") (simp_all add: decode_property_def D_string_def)

lemma decoder_fails_any:
  assumes "(\<exists>e. decode_property (pipe_string IntegerFromString) ''code'' i = Inl e)
      \<or> (\<exists>e. decode_property (pipe_string BooleanFromString) ''dynamic'' i = Inl e)
      \<or> (\<exists>e. decode_property D_string ''example'' i = Inl e)"
  shows "\<exists>err. PreferencesDecoder_decode i = Inl err"
  using assms by (auto simp add: PreferencesDecoder_decode_def Let_def split: sum.splits)

text \<open>The object that is decoded: the parsed \<open>Prefer\<close> header when the request has a
  non-empty one, the three query parameters otherwise.\<close>

lemma preferences_of_source:
  "preferences_of pph req =
     (case map_of (req_headers req) ''prefer'' of
        None \<Rightarrow> [(''code'', query_get (url_query req) ''__code''),
                 (''dynamic'', query_get (url_query req) ''__dynamic''),
                 (''example'', query_get (url_query req) ''__example'')]
      | Some h \<Rightarrow>
          if h = [] then [(''code'', query_get (url_query req) ''__code''),
                 (''dynamic'', query_get (url_query req) ''__dynamic''),
                 (''example'', query_get (url_query req) ''__example'')]
          else pph h)"
  by (simp add: preferences_of_def of_opt_string_def split: option.splits)

lemma resolution_fails:
  assumes "PreferencesDecoder_decode (preferences_of pph req) = Inl err"
  shows "\<exists>e. getHttpConfigFromRequest pph draw req = Inl e \<and> err_status e = Some 422"
  using assms
  by (simp add: getHttpConfigFromRequest_def Let_def ProblemJsonError_fromTemplate_def
      UNPROCESSABLE_ENTITY_def)

text \<open>
  Claim C5, as the code has it. The object \<open>i\<close> that is decoded is the parsed \<open>Prefer\<close>
  header when the request has a non-empty one, and the three query parameters
  \<open>__code\<close>, \<open>__dynamic\<close>, \<open>__example\<close> otherwise. For either source: a code that is a
  string of exactly three digits is resolved to its number when the dynamic value is
  absent, \<open>true\<close> or \<open>false\<close> and the example value is absent or a string; a code that is
  present and is not a string of exactly three digits, a dynamic value that is present
  and is neither \<open>true\<close> nor \<open>false\<close>, and an example value that is present and is not a
  string each make resolution fail with the 422 problem; a field that is absent stays
  absent.
\<close>

theorem preference_code:
  assumes q_def: "q = [(''code'', query_get (url_query req) ''__code''),
                      (''dynamic'', query_get (url_query req) ''__dynamic''),
                      (''example'', query_get (url_query req) ''__example'')]"
    and i_def: "i = (case map_of (req_headers req) ''prefer'' of
                      None \<Rightarrow> q
                    | Some h \<Rightarrow> if h = [] then q else pph h)"
  shows "(\<forall>s. object_get i ''code'' = JStr s \<and> three_digits s
              \<and> object_get i ''dynamic'' \<in> {JUndefined, JStr ''true'', JStr ''false''}
              \<and> (object_get i ''example'' = JUndefined \<or> (\<exists>e. object_get i ''example'' = JStr e))
            \<longrightarrow> (\<exists>p. getHttpConfigFromRequest pph draw req = Inr p
                   \<and> rp_code p = Some (parseInt10 s)))
       \<and> (object_get i ''code'' \<noteq> JUndefined
            \<and> \<not> (\<exists>s. object_get i ''code'' = JStr s \<and> three_digits s) \<longrightarrow>
            (\<exists>e. getHttpConfigFromRequest pph draw req = Inl e \<and> err_status e = Some 422))
       \<and> (object_get i ''dynamic'' \<notin> {JUndefined, JStr ''true'', JStr ''false''}
            \<or> (object_get i ''example'' \<noteq> JUndefined \<and> (\<forall>e. object_get i ''example'' \<noteq> JStr e))
            \<longrightarrow>
            (\<exists>e. getHttpConfigFromRequest pph draw req = Inl e \<and> err_status e = Some 422))
       \<and> (\<forall>p. getHttpConfigFromRequest pph draw req = Inr p \<longrightarrow>
            (object_get i ''code'' = JUndefined \<longrightarrow> rp_code p = None)
          \<and> (object_get i ''dynamic'' = JUndefined \<longrightarrow> rp_dynamic p = None)
          \<and> (object_get i ''example'' = JUndefined \<longrightarrow> rp_exampleKey p = None))"
proof (intro conjI allI impI)
  have src: "preferences_of pph req = i"
    unfolding i_def q_def preferences_of_source by (simp split: option.splits)
  {
    fix s
    assume a: "object_get i ''code'' = JStr s \<and> three_digits s
              \<and> object_get i ''dynamic'' \<in> {JUndefined, JStr ''true'', JStr ''false''}
              \<and> (object_get i ''example'' = JUndefined \<or> (\<exists>e. object_get i ''example'' = JStr e))"
    then obtain d e where de: "decode_property (pipe_string BooleanFromString) ''dynamic'' i = Inr d"
      "decode_property D_string ''example'' i = Inr e"
      using decode_dynamic_ok [of i] decode_example_ok [of i] by blast
    from a have c: "decode_property (pipe_string IntegerFromString) ''code'' i =
        Inr (Some (parseInt10 s))"
      using decode_code_three_digits [of i s] by simp
    show "\<exists>p. getHttpConfigFromRequest pph draw req = Inr p \<and> rp_code p = Some (parseInt10 s)"
      using decoder_total [OF c de]
      by (simp add: getHttpConfigFromRequest_def Let_def src)
  }
  {
    assume a: "object_get i ''code'' \<noteq> JUndefined
            \<and> \<not> (\<exists>s. object_get i ''code'' = JStr s \<and> three_digits s)"
    then obtain e where "decode_property (pipe_string IntegerFromString) ''code'' i = Inl [(''code'', e)]"
      using decode_code_malformed [of i] by blast
    then obtain err where "PreferencesDecoder_decode i = Inl err"
      using decoder_fails_any [of i] by blast
    then show "\<exists>e. getHttpConfigFromRequest pph draw req = Inl e \<and> err_status e = Some 422"
      using resolution_fails [of pph req err draw] by (simp add: src)
  }
  {
    assume a: "object_get i ''dynamic'' \<notin> {JUndefined, JStr ''true'', JStr ''false''}
            \<or> (object_get i ''example'' \<noteq> JUndefined \<and> (\<forall>e. object_get i ''example'' \<noteq> JStr e))"
    then have "(\<exists>e. decode_property (pipe_string BooleanFromString) ''dynamic'' i = Inl e)
      \<or> (\<exists>e. decode_property D_string ''example'' i = Inl e)"
      using decode_dynamic_malformed [of i] decode_example_malformed [of i] by blast
    then obtain err where "PreferencesDecoder_decode i = Inl err"
      using decoder_fails_any [of i] by blast
    then show "\<exists>e. getHttpConfigFromRequest pph draw req = Inl e \<and> err_status e = Some 422"
      using resolution_fails [of pph req err draw] by (simp add: src)
  }
  fix p
  assume r: "getHttpConfigFromRequest pph draw req = Inr p"
  from r obtain u where u: "PreferencesDecoder_decode i = Inr u" "rp_code p = pref_code u"
    "rp_dynamic p = pref_dynamic u" "rp_exampleKey p = pref_example u"
    by (auto simp: getHttpConfigFromRequest_def Let_def src split: sum.splits)
  note s = decoder_succeeds [OF u(1)]
  { assume "object_get i ''code'' = JUndefined"
    from decode_absent [OF this, of "pipe_string IntegerFromString"] s u
    show "rp_code p = None" by simp }
  { assume "object_get i ''dynamic'' = JUndefined"
    from decode_absent [OF this, of "pipe_string BooleanFromString"] s u
    show "rp_dynamic p = None" by simp }
  { assume "object_get i ''example'' = JUndefined"
    from decode_absent [OF this, of D_string] s u
    show "rp_exampleKey p = None" by simp }
qed

theorem preference_code_witness:
  "getHttpConfigFromRequest (\<lambda>h. if h = ''code=404'' then [(''code'', JStr ''404'')] else [])
       (\<lambda>e. [])
       (sample_request\<lparr>url_query := [(''__code'', Scalar ''200'')],
          req_headers := [(''prefer'', ''code=404'')]\<rparr>) =
     Inr \<lparr>rp_code = Some 404, rp_exampleKey = None, rp_dynamic = None\<rparr>
   \<and> getHttpConfigFromRequest (\<lambda>h. if h = ''code=404'' then [(''code'', JStr ''404'')] else [])
       (\<lambda>e. [])
       (sample_request\<lparr>url_query := [(''__code'', Scalar ''200'')]\<rparr>) =
     Inr \<lparr>rp_code = Some 200, rp_exampleKey = None, rp_dynamic = None\<rparr>
   \<and> (\<exists>e. getHttpConfigFromRequest
         (\<lambda>h. if h = ''code=404'' then [(''code'', JStr ''404'')] else []) (\<lambda>e. [])
         (sample_request\<lparr>url_query := [(''__code'', Scalar ''20'')]\<rparr>) = Inl e
       \<and> err_status e = Some 422)
   \<and> (\<exists>e. getHttpConfigFromRequest
         (\<lambda>h. if h = ''code=404'' then [(''code'', JStr ''404'')] else []) (\<lambda>e. [])
         (sample_request\<lparr>url_query := [(''__dynamic'', Scalar ''yes'')]\<rparr>) = Inl e
       \<and> err_status e = Some 422)"
proof -
  let ?pph = "\<lambda>h. if h = ''code=404'' then [(''code'', JStr ''404'')] else []"
  let ?draw = "(\<lambda>e. []) :: decode_error \<Rightarrow> string"
  let ?rh = "sample_request\<lparr>url_query := [(''__code'', Scalar ''200'')],
          req_headers := [(''prefer'', ''code=404'')]\<rparr>"
  let ?r200 = "sample_request\<lparr>url_query := [(''__code'', Scalar ''200'')]\<rparr>"
  let ?r20 = "sample_request\<lparr>url_query := [(''__code'', Scalar ''20'')]\<rparr>"
  let ?ryes = "sample_request\<lparr>url_query := [(''__dynamic'', Scalar ''yes'')]\<rparr>"
  have three: "three_digits ''404''" "three_digits ''200''" "\<not> three_digits ''20''"
    by (simp_all add: three_digits_def is_digit_def)
  have n: "parseInt10 ''404'' = 404" "parseInt10 ''200'' = 200"
    by (simp_all add: parseInt10_def digit_value_def)
  note th = preference_code [where req = ?rh and pph = ?pph and draw = ?draw, OF refl refl]
  note t200 = preference_code [where req = ?r200 and pph = ?pph and draw = ?draw, OF refl refl]
  note t20 = preference_code [where req = ?r20 and pph = ?pph and draw = ?draw, OF refl refl]
  note tyes = preference_code [where req = ?ryes and pph = ?pph and draw = ?draw, OF refl refl]
  from th three(1) n(1) obtain p where
    p: "getHttpConfigFromRequest ?pph ?draw ?rh = Inr p" "rp_code p = Some 404"
    by (auto simp add: sample_request_def object_get_def query_get_def)
  from th p(1) have "rp_dynamic p = None" "rp_exampleKey p = None"
    by (simp_all add: sample_request_def object_get_def query_get_def)
  with p have first: "getHttpConfigFromRequest ?pph ?draw ?rh =
      Inr \<lparr>rp_code = Some 404, rp_exampleKey = None, rp_dynamic = None\<rparr>"
    by (cases p) simp
  from t200 three(2) n(2) obtain u where
    u: "getHttpConfigFromRequest ?pph ?draw ?r200 = Inr u" "rp_code u = Some 200"
    by (auto simp add: sample_request_def object_get_def query_get_def)
  from t200 u(1) have "rp_dynamic u = None" "rp_exampleKey u = None"
    by (simp_all add: sample_request_def object_get_def query_get_def)
  with u have second: "getHttpConfigFromRequest ?pph ?draw ?r200 =
      Inr \<lparr>rp_code = Some 200, rp_exampleKey = None, rp_dynamic = None\<rparr>"
    by (cases u) simp
  have third: "\<exists>e. getHttpConfigFromRequest ?pph ?draw ?r20 = Inl e \<and> err_status e = Some 422"
    using t20 three(3) by (simp add: sample_request_def object_get_def query_get_def)
  have fourth: "\<exists>e. getHttpConfigFromRequest ?pph ?draw ?ryes = Inl e \<and> err_status e = Some 422"
    using tyes by (simp add: sample_request_def object_get_def query_get_def)
  from first second third fourth show ?thesis by blast
qed

text \<open>
  The claim fails on the query \<open>?__code=200&__dynamic=yes\<close>: the code is exactly three
  digits and resolution fails with the 422 problem, because every field is decoded
  before any is resolved.
\<close>

theorem preference_code_counterexample:
  "three_digits ''200''
   \<and> getHttpConfigFromRequest (\<lambda>h. []) (\<lambda>e. [])
       (sample_request\<lparr>url_query := [(''__code'', Scalar ''200''),
          (''__dynamic'', Scalar ''yes'')]\<rparr>) =
     Inl (ProblemJsonError_fromTemplate UNPROCESSABLE_ENTITY [] None)
   \<and> err_status (ProblemJsonError_fromTemplate UNPROCESSABLE_ENTITY [] None) = Some 422"
  by code_simp

section \<open>Properties of the error translator\<close>



text \<open>The loop over the additional headers: it ends with all of them set when each is
  accepted, and throws a \<open>TypeError\<close> otherwise.\<close>

lemma set_each_accepted:
  assumes "list_all (\<lambda>p. is_header_name (fst p) \<and> is_header_value (normalize_value (snd p))) hs"
  shows "set_each hs h0 =
     Inr (fold (\<lambda>p h. AList.update (map lower_char (fst p)) (normalize_value (snd p)) h) hs h0)"
  using assms
  by (induction hs arbitrary: h0) (simp_all add: Headers_set_def)

lemma set_each_refused:
  assumes "\<not> list_all (\<lambda>p. is_header_name (fst p) \<and> is_header_value (normalize_value (snd p))) hs"
  shows "set_each hs h0 = Inl (TypeError ''Invalid header'')"
  using assms
  by (induction hs arbitrary: h0) (auto simp add: Headers_set_def)

lemma set_headers_lookup:
  "map_of (fold (\<lambda>p h. AList.update (map lower_char (fst p)) (normalize_value (snd p)) h) hs h0) k =
     (case map_of (rev (map (\<lambda>p. (map lower_char (fst p), normalize_value (snd p))) hs)) k of
        Some v \<Rightarrow> Some v
      | None \<Rightarrow> map_of h0 k)"
proof (induction hs arbitrary: h0)
  case Nil
  then show ?case by simp
next
  case (Cons p hs)
  show ?case
    by (simp add: Cons.IH) (simp add: update_conv' map_add_def split: option.splits)
qed

lemma problem_content_type:
  "Headers_set ''content-type'' ''application/problem+json'' [] =
     Inr [(''content-type'', ''application/problem+json'')]"
  by code_simp

lemma translated_headers_lookup:
  "map_of (fold (\<lambda>p h. AList.update (map lower_char (fst p)) (normalize_value (snd p)) h) hs
       [(''content-type'', ''application/problem+json'')]) k =
     (case map_of (rev (map (\<lambda>p. (map lower_char (fst p), normalize_value (snd p))) hs)) k of
        Some v \<Rightarrow> Some v
      | None \<Rightarrow> if k = ''content-type'' then Some ''application/problem+json'' else None)"
  unfolding set_headers_lookup by (simp split: option.splits)



lemma error_translator_eq:
  "error_translator lib e =
     (if list_all (\<lambda>p. is_header_name (fst p) \<and> is_header_value (normalize_value (snd p)))
           (case additional_headers e of None \<Rightarrow> [] | Some l \<Rightarrow> l)
      then case initialize_response True
                  (case err_status e of None \<Rightarrow> 500 | Some s \<Rightarrow> if s \<noteq> 0 then s else 500) of
             Some t \<Rightarrow> Rejects t
           | None \<Rightarrow>
               Right \<lparr>resp_status =
                        (case err_status e of None \<Rightarrow> 500 | Some s \<Rightarrow> if s \<noteq> 0 then s else 500),
                      resp_headers =
                        fold (\<lambda>p h. AList.update (map lower_char (fst p)) (normalize_value (snd p)) h)
                          (case additional_headers e of None \<Rightarrow> [] | Some l \<Rightarrow> l)
                          [(''content-type'', ''application/problem+json'')],
                      resp_body = of_opt_string (JSON_stringify (JObj (imp_toProblemJson lib e)))\<rparr>
      else Rejects (TypeError ''Invalid header''))"
proof -
  let ?ok = "\<lambda>p. is_header_name (fst p) \<and> is_header_value (normalize_value (snd p))"
  let ?hs = "case additional_headers e of None \<Rightarrow> [] | Some l \<Rightarrow> l"
  have has: "Headers_has
      (fold (\<lambda>p h. AList.update (map lower_char (fst p)) (normalize_value (snd p)) h) hs
         [(''content-type'', ''application/problem+json'')]) ''content-type''" for hs
    by (simp add: Headers_has_def translated_headers_lookup split: option.splits)
  have loop: "(case additional_headers e of
                 None \<Rightarrow> Inr [(''content-type'', ''application/problem+json'')]
               | Some hs \<Rightarrow> set_each hs [(''content-type'', ''application/problem+json'')]) =
      set_each ?hs [(''content-type'', ''application/problem+json'')]"
    by (simp split: option.splits)
  show ?thesis
  proof (cases "list_all ?ok ?hs")
    case True
    show ?thesis
      unfolding error_translator_def problem_content_type sum.case loop
        set_each_accepted [OF True]
      using True has [of ?hs]
      by (simp add: Response_json_def of_opt_string_def split: option.splits)
  next
    case False
    show ?thesis
      unfolding error_translator_def problem_content_type sum.case loop
        set_each_refused [OF False]
      using False by simp
  qed
qed




section \<open>Properties of the pipeline\<close>



section \<open>Properties of the configuration merge\<close>

lemma fp_merge_Prim:
  "fp_merge (Prim JUndefined) (map (\<lambda>p. (fst p, Prim (snd p))) obj)
      (map (\<lambda>p. (fst p, Prim (snd p))) src) =
   map (\<lambda>p. (fst p, Prim (snd p))) (fp_merge JUndefined obj src)"
proof -
  have upd: "AList.update k (Prim v) (map (\<lambda>p. (fst p, Prim (snd p))) xs) =
      map (\<lambda>p. (fst p, Prim (snd p))) (AList.update k v xs)" for k :: string and v xs
    by (induction xs) auto
  have asg: "assignMergeValue (Prim JUndefined) k (Prim v) (map (\<lambda>p. (fst p, Prim (snd p))) xs) =
      map (\<lambda>p. (fst p, Prim (snd p))) (assignMergeValue JUndefined k v xs)" for k v xs
    by (simp add: assignMergeValue_def upd image_image)
  have bm: "baseMerge (Prim JUndefined) (map (\<lambda>p. (fst p, Prim (snd p))) xs)
        (map (\<lambda>p. (fst p, Prim (snd p))) ys) =
      map (\<lambda>p. (fst p, Prim (snd p))) (baseMerge JUndefined xs ys)" for xs ys
    unfolding baseMerge_def
    by (induction ys arbitrary: xs) (simp_all add: asg)
  show ?thesis
    using bm [of "[]"] by (simp add: fp_merge_def bm)
qed

text \<open>\<open>merge\<close> of lodash writes into the object it is given and into no other.\<close>

lemma store_merge_frame:
  assumes "a \<noteq> object"
  shows "store_merge h object source ! a = h ! a"
  using assms by (simp add: store_merge_def)

lemma store_merge_length: "length (store_merge h object source) = length h"
  by (simp add: store_merge_def)

lemma store_merge_target:
  assumes "object < length h"
  shows "store_merge h object source ! object = baseMerge (Prim JUndefined) (h ! object) source"
  using assms by (simp add: store_merge_def)

text \<open>Had the adapter called \<open>merge\<close> of lodash on \<open>config.mock\<close>, the baseline's \<open>mock\<close>
  object would have been written: a preference \<open>dynamic\<close> changes it in place.\<close>

lemma lodash_merge_in_place:
  "store_merge main_store 1 [(''dynamic'', Prim (JBool True))] ! 1 =
     [(''dynamic'', Prim (JBool True))]
   \<and> main_store ! 1 = [(''dynamic'', Prim (JBool False))]"
  by code_simp

text \<open>\<open>merge\<close> of lodash/fp allocates one object, the clone, and writes into it only.\<close>

lemma store_fp_merge_frame:
  assumes "object < length h" and "store_fp_merge h object source = (h', clone)"
  shows "clone = length h" and "length h' = Suc (length h)"
    and "\<And>a. a < length h \<Longrightarrow> h' ! a = h ! a"
    and "h' ! clone = fp_merge (Prim JUndefined) (h ! object) source"
proof -
  let ?h1 = "h @ [[]]"
  let ?h2 = "store_merge ?h1 (length h) (?h1 ! object)"
  let ?h3 = "store_merge ?h2 (length h) source"
  from assms(2) have h': "h' = ?h3" and c: "clone = length h"
    by (auto simp add: store_fp_merge_def Let_def)
  show "clone = length h" by (rule c)
  show "length h' = Suc (length h)"
    by (simp add: h' store_merge_length)
  show "h' ! a = h ! a" if "a < length h" for a
  proof -
    from that have ne: "a \<noteq> length h" by simp
    have "h' ! a = ?h2 ! a"
      unfolding h' by (rule store_merge_frame [OF ne])
    also have "\<dots> = ?h1 ! a"
      by (rule store_merge_frame [OF ne])
    also have "\<dots> = h ! a"
      using that by (simp add: nth_append)
    finally show ?thesis .
  qed
  have l1: "length h < length ?h1" by simp
  have l2: "length h < length ?h2" by (simp add: store_merge_length)
  have "h' ! clone = baseMerge (Prim JUndefined) (?h2 ! length h) source"
    unfolding h' c by (rule store_merge_target [OF l2])
  also have "?h2 ! length h = baseMerge (Prim JUndefined) (?h1 ! length h) (?h1 ! object)"
    by (rule store_merge_target [OF l1])
  also have "?h1 ! length h = []" by simp
  also have "?h1 ! object = h ! object"
    using assms(1) by (simp add: nth_append)
  finally show "h' ! clone = fp_merge (Prim JUndefined) (h ! object) source"
    by (simp add: fp_merge_def)
qed

text \<open>
  Claim C9. Building the request configuration writes into two objects only, the clone
  that \<open>merge\<close> of lodash/fp allocates and the object of the spread, both at fresh
  addresses: every object of the store before the step, the baseline configuration and
  its \<open>mock\<close> among them, reads the same after it, and the new configuration refers to
  the merged \<open>mock\<close>.
\<close>

theorem baseline_unchanged:
  assumes "config < length h" and "map_of (h ! config) ''mock'' = Some (Ref m)" and "m < length h"
  shows "\<exists>h' c' m'. store_requestConfig h config prefs = (h', c')
       \<and> h' ! config = h ! config \<and> h' ! m = h ! m
       \<and> (\<forall>a < length h. h' ! a = h ! a)
       \<and> length h \<le> c' \<and> length h \<le> m' \<and> c' < length h' \<and> m' < length h'
       \<and> map_of (h' ! c') ''mock'' = Some (Ref m')
       \<and> h' ! m' = fp_merge (Prim JUndefined) (h ! m)
            (map (\<lambda>p. (fst p, Prim (snd p))) (RequestPreferences_object prefs))"
proof -
  let ?src = "map (\<lambda>p. (fst p, Prim (snd p))) (RequestPreferences_object prefs)"
  obtain h1 clone where m1: "store_fp_merge h m ?src = (h1, clone)"
    by (cases "store_fp_merge h m ?src")
  note f = store_fp_merge_frame [OF assms(3) m1]
  let ?h' = "h1 @ [AList.update ''mock'' (Ref clone) (h1 ! config)]"
  have r: "store_requestConfig h config prefs = (?h', length h1)"
    using assms(2) m1 by (simp add: store_requestConfig_def store_spread_mock_def)
  have old: "?h' ! a = h ! a" if "a < length h" for a
    using that f(2) f(3) [OF that] by (simp add: nth_append)
  have new: "?h' ! length h1 = AList.update ''mock'' (Ref clone) (h1 ! config)"
    by simp
  have cl: "?h' ! clone = fp_merge (Prim JUndefined) (h ! m) ?src"
    using f(1,2,4) by (simp add: nth_append)
  show ?thesis
    apply (rule exI [of _ ?h'])
    apply (rule exI [of _ "length h1"])
    apply (rule exI [of _ clone])
    apply (intro conjI)
    subgoal by (rule r)
    subgoal by (rule old [OF assms(1)])
    subgoal by (rule old [OF assms(3)])
    subgoal using old by blast
    subgoal using f(2) by simp
    subgoal using f(1) by simp
    subgoal by simp
    subgoal using f(1,2) by simp
    subgoal unfolding new by (simp add: update_conv')
    subgoal by (rule cl)
    done
qed

theorem baseline_unchanged_witness:
  "\<exists>h' c' m'. store_requestConfig main_store 0
        \<lparr>rp_code = Some 404, rp_exampleKey = None, rp_dynamic = Some True\<rparr> = (h', c')
       \<and> h' ! 0 = main_store ! 0 \<and> h' ! 1 = main_store ! 1
       \<and> map_of (h' ! c') ''mock'' = Some (Ref m')
       \<and> h' ! m' = [(''dynamic'', Prim (JBool True)), (''code'', Prim (JNum 404)),
            (''exampleKey'', Prim JUndefined)]"
proof -
  have "fp_merge (Prim JUndefined) (main_store ! 1)
            (map (\<lambda>p. (fst p, Prim (snd p))) (RequestPreferences_object
               \<lparr>rp_code = Some 404, rp_exampleKey = None, rp_dynamic = Some True\<rparr>)) =
        [(''dynamic'', Prim (JBool True)), (''code'', Prim (JNum 404)),
            (''exampleKey'', Prim JUndefined)]"
    by code_simp
  moreover have "0 < length main_store" "map_of (main_store ! 0) ''mock'' = Some (Ref 1)"
    "1 < length main_store"
    by (simp_all add: main_store_def)
  ultimately show ?thesis
    using baseline_unchanged [of 0 main_store 1
        "\<lparr>rp_code = Some 404, rp_exampleKey = None, rp_dynamic = Some True\<rparr>"]
    by auto
qed

section \<open>Properties of \<open>JSON.stringify\<close> and \<open>JSON.parse\<close>\<close>

text \<open>
  The reader \<open>JSON_parse\<close> behind \<open>request.json()\<close> is checked against the printer on
  the values of the embedding: integers, 8-bit strings, arrays, and objects with distinct
  property names. Fractions, exponents and characters above \<open>U+00FF\<close> are outside it.
\<close>

lemma is_digit_char_of: "d < (10 :: nat) \<Longrightarrow> is_digit (char_of (48 + d))"
  by (simp add: is_digit_def)

lemma digit_value_char_of: "d < (10 :: nat) \<Longrightarrow> digit_value (char_of (48 + d)) = d"
  by (simp add: digit_value_def)

lemma show_nat_digits: "list_all is_digit (show_nat n)"
proof (induction n rule: show_nat.induct)
  case (1 n)
  show ?case
  proof (cases "n < 10")
    case True
    then show ?thesis by (simp add: show_nat.simps [of n] is_digit_char_of)
  next
    case False
    with 1 show ?thesis
      by (simp add: show_nat.simps [of n] is_digit_char_of)
  qed
qed

lemma show_nat_nonempty: "show_nat n \<noteq> []"
  by (simp add: show_nat.simps [of n])

lemma show_nat_value: "foldl (\<lambda>a c. 10 * a + digit_value c) 0 (show_nat n) = n"
proof (induction n rule: show_nat.induct)
  case (1 n)
  show ?case
  proof (cases "n < 10")
    case True
    then show ?thesis by (simp add: show_nat.simps [of n] digit_value_char_of)
  next
    case False
    with 1 show ?thesis
      by (simp add: show_nat.simps [of n] digit_value_char_of)
  qed
qed

lemma show_nat_hd: "0 < n \<Longrightarrow> hd (show_nat n) \<noteq> CHR ''0''"
proof (induction n rule: show_nat.induct)
  case (1 n)
  show ?case
  proof (cases "n < 10")
    case True
    have "char_of (48 + n) \<noteq> CHR ''0''"
    proof
      assume "char_of (48 + n) = CHR ''0''"
      then have "(of_char (char_of (48 + n)) :: nat) = of_char CHR ''0''"
        by (rule arg_cong)
      with True "1.prems" show False by simp
    qed
    with True show ?thesis by (simp add: show_nat.simps [of n])
  next
    case False
    then have "0 < n div 10" by simp
    with 1 False have "hd (show_nat (n div 10)) \<noteq> CHR ''0''" by simp
    with False show ?thesis
      by (simp add: show_nat.simps [of n] show_nat_nonempty)
  qed
qed

lemma show_nat_zero: "show_nat 0 = ''0''"
  by code_simp

lemma show_nat_leading: "\<not> (length (show_nat n) > 1 \<and> hd (show_nat n) = CHR ''0'')"
  by (cases "n = 0") (simp_all add: show_nat_zero show_nat_hd)

lemma takeWhile_digits:
  assumes "list_all is_digit ds" "rest = [] \<or> \<not> is_digit (hd rest)"
  shows "takeWhile is_digit (ds @ rest) = ds" "dropWhile is_digit (ds @ rest) = rest"
  using assms by (cases rest; simp add: list_all_iff)+

lemma parse_number_nat:
  assumes "number_end rest"
  shows "parse_number (show_nat n @ rest) = Some (int n, rest)"
proof -
  have nd: "rest = [] \<or> \<not> is_digit (hd rest)"
    using assms by (auto simp: number_end_def)
  have hd_digit: "is_digit (hd (show_nat n @ rest))"
    using show_nat_digits [of n] show_nat_nonempty [of n]
    by (cases "show_nat n") simp_all
  have not_neg: "\<not> (show_nat n @ rest \<noteq> [] \<and> hd (show_nat n @ rest) = CHR ''-'')"
    using hd_digit by (auto simp: is_digit_def)
  show ?thesis
    using assms show_nat_leading [of n] not_neg
    by (auto simp add: parse_number_def Let_def takeWhile_digits [OF show_nat_digits nd]
        show_nat_nonempty parseInt10_def show_nat_value number_end_def simp del: hd_append2)
qed

lemma parse_number_int:
  assumes "number_end rest"
  shows "parse_number (show_int i @ rest) = Some (i, rest)"
proof (cases "i < 0")
  case False
  then show ?thesis
    using parse_number_nat [OF assms, of "nat i"] by (simp add: show_int_def)
next
  case True
  have nd: "rest = [] \<or> \<not> is_digit (hd rest)"
    using assms by (auto simp: number_end_def)
  show ?thesis
    using True assms show_nat_leading [of "nat (- i)"]
    by (auto simp add: show_int_def parse_number_def Let_def
        takeWhile_digits [OF show_nat_digits nd] show_nat_nonempty parseInt10_def
        show_nat_value number_end_def)
qed

lemma hex_value_hex_digit: "d < 16 \<Longrightarrow> hex_value (hex_digit d) = Some d"
  by (simp add: hex_value_def hex_digit_def Let_def)

lemma parse_escape:
  assumes "unescape e = Some d" "e \<noteq> CHR ''u''"
  shows "parse_chars (CHR 0x5C # e # t) = cons_char d (parse_chars t)"
  using assms by simp

lemma parse_u_escape:
  assumes "n < 32"
  shows "parse_chars (CHR 0x5C # CHR ''u'' # CHR ''0'' # CHR ''0'' # hex_digit (n div 16) # hex_digit (n mod 16) # t)
     = cons_char (char_of n) (parse_chars t)"
proof -
  have "n div 16 < 16" "n mod 16 < 16" using assms by simp_all
  then have "hex_value (hex_digit (n div 16)) = Some (n div 16)"
    "hex_value (hex_digit (n mod 16)) = Some (n mod 16)"
    by (simp_all add: hex_value_hex_digit)
  moreover have "hex_value CHR ''0'' = Some 0" by (simp add: hex_value_def)
  ultimately show ?thesis by simp
qed

lemma parse_plain:
  assumes "(of_char c :: nat) \<noteq> 34" "(of_char c :: nat) \<noteq> 92" "\<not> (of_char c :: nat) < 32"
  shows "parse_chars (c # t) = cons_char c (parse_chars t)"
  using assms by simp

lemma parse_quote_char: "parse_chars (quote_char c @ t) = cons_char c (parse_chars t)"
proof -
  define n where "n = (of_char c :: nat)"
  have c: "c = char_of n" by (simp add: n_def)
  consider "n = 8" | "n = 9" | "n = 10" | "n = 12" | "n = 13" | "n = 34" | "n = 92"
    | "n < 32" "n \<notin> {8, 9, 10, 12, 13}" | "\<not> n < 32" "n \<noteq> 34" "n \<noteq> 92"
    by auto
  then show ?thesis
  proof cases
    case 1
    have "quote_char c = [CHR 0x5C, CHR ''b'']" using 1 by (simp add: quote_char_def n_def)
    then show ?thesis using 1 c by (simp add: parse_escape unescape_def del: parse_chars.simps)
  next
    case 2
    have "quote_char c = [CHR 0x5C, CHR ''t'']" using 2 by (simp add: quote_char_def n_def)
    then show ?thesis using 2 c by (simp add: parse_escape unescape_def del: parse_chars.simps)
  next
    case 3
    have "quote_char c = [CHR 0x5C, CHR ''n'']" using 3 by (simp add: quote_char_def n_def)
    then show ?thesis using 3 c by (simp add: parse_escape unescape_def del: parse_chars.simps)
  next
    case 4
    have "quote_char c = [CHR 0x5C, CHR ''f'']" using 4 by (simp add: quote_char_def n_def)
    then show ?thesis using 4 c by (simp add: parse_escape unescape_def del: parse_chars.simps)
  next
    case 5
    have "quote_char c = [CHR 0x5C, CHR ''r'']" using 5 by (simp add: quote_char_def n_def)
    then show ?thesis using 5 c by (simp add: parse_escape unescape_def del: parse_chars.simps)
  next
    case 6
    have "quote_char c = [CHR 0x5C, CHR 0x22]" using 6 by (simp add: quote_char_def n_def)
    moreover have "c = CHR 0x22" using 6 by (intro char_eqI) (simp add: n_def)
    ultimately show ?thesis by (simp add: parse_escape unescape_def del: parse_chars.simps)
  next
    case 7
    have "quote_char c = [CHR 0x5C, CHR 0x5C]" using 7 by (simp add: quote_char_def n_def)
    moreover have "c = CHR 0x5C" using 7 by (intro char_eqI) (simp add: n_def)
    ultimately show ?thesis by (simp add: parse_escape unescape_def del: parse_chars.simps)
  next
    case 8
    then have "quote_char c = [CHR 0x5C, CHR ''u'', CHR ''0'', CHR ''0'', hex_digit (n div 16), hex_digit (n mod 16)]"
      by (auto simp add: quote_char_def n_def Let_def)
    then show ?thesis using parse_u_escape [OF 8(1), of t] c by simp
  next
    case 9
    then have "quote_char c = [c]"
      by (auto simp add: quote_char_def n_def Let_def)
    then show ?thesis using parse_plain [of c t] 9 by (simp add: n_def del: parse_chars.simps)
  qed
qed

lemma parse_quoted_chars:
  "parse_chars (concat (map quote_char s) @ CHR 0x22 # rest) = Some (s, rest)"
  by (induction s) (simp_all add: parse_quote_char cons_char_def del: parse_chars.simps(2), simp)

lemma value_end_number_end: "value_end rest \<Longrightarrow> number_end rest"
  by (auto simp: value_end_def number_end_def is_digit_def)

lemma skip_ws_start: "s \<noteq> [] \<Longrightarrow> \<not> is_ws (hd s) \<Longrightarrow> skip_ws s = s"
  by (cases s) simp_all

lemma skip_ws_value_end: "value_end rest \<Longrightarrow> skip_ws rest = rest"
  by (cases rest) (auto simp: value_end_def is_ws_def)

lemma digit_not_special:
  assumes "is_digit c"
  shows "\<not> is_ws c" "c \<noteq> CHR ''[''" "c \<noteq> CHR ''{''" "c \<noteq> CHR 0x22" "c \<noteq> CHR '']''" "c \<noteq> CHR ''}''"
  using assms by (auto simp: is_digit_def is_ws_def)

lemma show_int_start:
  "\<exists>c cs. show_int i = c # cs \<and> (c = CHR ''-'' \<or> is_digit c)"
proof -
  obtain d ds where "show_nat (nat \<bar>i\<bar>) = d # ds" "is_digit d"
    using show_nat_digits [of "nat \<bar>i\<bar>"] show_nat_nonempty [of "nat \<bar>i\<bar>"]
    by (cases "show_nat (nat \<bar>i\<bar>)") simp_all
  then show ?thesis
    by (cases "i < 0") (simp_all add: show_int_def abs_if)
qed

lemma parse_value_number:
  assumes "value_end rest"
  shows "parse_value (Suc n) (show_int i @ rest) = Some (JNum i, rest)"
proof -
  obtain c cs where c: "show_int i = c # cs" "c = CHR ''-'' \<or> is_digit c"
    using show_int_start by blast
  have ns: "\<not> is_ws c" "c \<noteq> CHR ''[''" "c \<noteq> CHR ''{''" "c \<noteq> CHR 0x22"
    using c(2) digit_not_special [of c] by (auto simp: is_ws_def)
  have "parse_number (c # cs @ rest) = Some (i, rest)"
    using parse_number_int [OF value_end_number_end [OF assms], of i] c(1) by simp
  then show ?thesis
    using ns c by (simp add: parse_value.simps)
qed

lemma parse_value_string:
  "parse_value (Suc n) (QuoteJSONString s @ rest) = Some (JStr s, rest)"
  by (simp add: parse_value.simps QuoteJSONString_def is_ws_def parse_quoted_chars
      del: parse_chars.simps)

lemma parse_value_literals:
  "parse_value (Suc n) (''null'' @ rest) = Some (JNull, rest)"
  "parse_value (Suc n) (''true'' @ rest) = Some (JBool True, rest)"
  "parse_value (Suc n) (''false'' @ rest) = Some (JBool False, rest)"
  by (simp_all add: parse_value.simps is_ws_def is_digit_def strip_prefix_def)

lemma parse_value_array_empty:
  "parse_value (Suc n) (''[]'' @ rest) = Some (JArr [], rest)"
  by (simp add: parse_value.simps is_ws_def)

lemma parse_value_object_empty:
  "parse_value (Suc n) (''{}'' @ rest) = Some (JObj [], rest)"
  by (simp add: parse_value.simps is_ws_def)

lemma parse_value_array:
  assumes "value_start s"
  shows "parse_value (Suc n) (CHR ''['' # s) =
     (case parse_elements n s of None \<Rightarrow> None | Some (xs, r) \<Rightarrow> Some (JArr xs, r))"
  using assms
  by (cases s) (simp_all add: parse_value.simps value_start_def is_ws_def)

lemma parse_value_object:
  assumes "value_start s"
  shows "parse_value (Suc n) (CHR ''{'' # s) =
     (case parse_members n s of None \<Rightarrow> None | Some (ms, r) \<Rightarrow> Some (JObj (members_object ms), r))"
  using assms
  by (cases s) (simp_all add: parse_value.simps value_start_def is_ws_def)

lemma members_object_distinct:
  assumes "distinct (map fst ms)"
  shows "members_object ms = ms"
proof -
  have "distinct (map fst ms) \<Longrightarrow> fst ` set acc \<inter> fst ` set ms = {} \<Longrightarrow>
      fold (\<lambda>p obj. AList.update (fst p) (snd p) obj) ms acc = acc @ ms" for acc
  proof (induction ms arbitrary: acc)
    case Nil
    then show ?case by simp
  next
    case (Cons p ms)
    have "fst p \<notin> fst ` set acc" using Cons.prems(2) by auto
    then have u: "AList.update (fst p) (snd p) acc = acc @ [p]"
      by (induction acc) auto
    have "fst ` set (acc @ [p]) \<inter> fst ` set ms = {}"
      using Cons.prems by auto
    with Cons.IH [of "acc @ [p]"] Cons.prems(1) u show ?case by simp
  qed
  from this [of "[]"] assms show ?thesis by (simp add: members_object_def)
qed

lemma join_comma_Cons:
  "join_comma (e # es) = (if es = [] then e else e @ CHR '','' # join_comma es)"
  by (cases es) simp_all

lemma value_start_append: "value_start e \<Longrightarrow> value_start (e @ t)"
  by (cases e) (simp_all add: value_start_def)

lemma value_start_simps:
  "value_start (CHR ''['' # s)" "value_start (CHR ''{'' # s)" "value_start (CHR 0x22 # s)"
  "value_start (''null'' @ s)" "value_start (''true'' @ s)" "value_start (''false'' @ s)"
  by (simp_all add: value_start_def is_ws_def)

lemma value_start_show_int: "value_start (show_int i)"
proof -
  obtain c cs where c: "show_int i = c # cs" "c = CHR ''-'' \<or> is_digit c"
    using show_int_start by blast
  then show ?thesis
    using digit_not_special [of c] by (auto simp: value_start_def is_ws_def)
qed

lemma parse_elements_step:
  assumes "parse_value n s = Some (v, r)"
  shows "r = CHR '']'' # rest \<Longrightarrow> parse_elements (Suc n) s = Some ([v], rest)"
    and "r = CHR '','' # t \<Longrightarrow> parse_elements n t = Some (vs, rest)
          \<Longrightarrow> parse_elements (Suc n) s = Some (v # vs, rest)"
  using assms by (simp_all add: parse_elements.simps is_ws_def)

lemma parse_members_step:
  assumes "parse_value n s = Some (v, r)"
  shows "r = CHR ''}'' # rest \<Longrightarrow>
           parse_members (Suc n) (QuoteJSONString k @ CHR '':'' # s) = Some ([(k, v)], rest)"
    and "r = CHR '','' # t \<Longrightarrow> parse_members n t = Some (ms, rest)
          \<Longrightarrow> parse_members (Suc n) (QuoteJSONString k @ CHR '':'' # s) = Some ((k, v) # ms, rest)"
  using assms
  by (simp_all add: parse_members.simps is_ws_def QuoteJSONString_def parse_quoted_chars
      del: parse_chars.simps)

lemma roundtrip_aux:
  "json_safe v \<Longrightarrow>
     (\<exists>e. JSON_stringify v = Some e \<and> value_start e
        \<and> (\<forall>n rest. length e < n \<longrightarrow> value_end rest \<longrightarrow> parse_value n (e @ rest) = Some (v, rest)))"
  "json_safe_elements xs \<Longrightarrow> xs \<noteq> [] \<Longrightarrow>
     JSON_elements xs \<noteq> [] \<and> value_start (join_comma (JSON_elements xs))
     \<and> (\<forall>n rest. length (join_comma (JSON_elements xs)) + 1 < n \<longrightarrow>
           parse_elements n (join_comma (JSON_elements xs) @ CHR '']'' # rest) = Some (xs, rest))"
  "json_safe_members ps \<Longrightarrow> ps \<noteq> [] \<Longrightarrow>
     JSON_members ps \<noteq> [] \<and> value_start (join_comma (JSON_members ps))
     \<and> (\<forall>n rest. length (join_comma (JSON_members ps)) + 1 < n \<longrightarrow>
           parse_members n (join_comma (JSON_members ps) @ CHR ''}'' # rest) = Some (ps, rest))"
proof (induction v and xs and ps rule: JSON_stringify_JSON_elements_JSON_members.induct)
  case 1
  then show ?case by simp
next
  case 2
  show ?case
  proof (intro exI conjI allI impI)
    show "JSON_stringify JNull = Some ''null''" by simp
    show "value_start ''null''" by (simp add: value_start_def is_ws_def)
    fix n :: nat and rest
    assume "length ''null'' < n"
    then obtain m where "n = Suc m" by (cases n) simp_all
    then show "parse_value n (''null'' @ rest) = Some (JNull, rest)"
      by (simp only: parse_value_literals)
  qed
next
  case (3 b)
  show ?case
  proof (intro exI conjI allI impI)
    show "JSON_stringify (JBool b) = Some (if b then ''true'' else ''false'')" by simp
    show "value_start (if b then ''true'' else ''false'')" by (simp add: value_start_def is_ws_def)
    fix n :: nat and rest
    assume "length (if b then ''true'' else ''false'') < n"
    then obtain m where "n = Suc m" by (cases n) simp_all
    then show "parse_value n ((if b then ''true'' else ''false'') @ rest) = Some (JBool b, rest)"
      using parse_value_literals(2,3) [of m rest] by (cases b) simp_all
  qed
next
  case (4 i)
  show ?case
  proof (intro exI conjI allI impI)
    show "JSON_stringify (JNum i) = Some (show_int i)" by simp
    show "value_start (show_int i)" by (rule value_start_show_int)
    fix n :: nat and rest
    assume "length (show_int i) < n" and e: "value_end rest"
    then obtain m where "n = Suc m" by (cases n) simp_all
    then show "parse_value n (show_int i @ rest) = Some (JNum i, rest)"
      using parse_value_number [OF e] by simp
  qed
next
  case (5 s)
  show ?case
  proof (intro exI conjI allI impI)
    show "JSON_stringify (JStr s) = Some (QuoteJSONString s)" by simp
    show "value_start (QuoteJSONString s)"
      by (simp add: QuoteJSONString_def value_start_def is_ws_def)
    fix n :: nat and rest
    assume "length (QuoteJSONString s) < n"
    then obtain m where "n = Suc m" by (cases n) simp_all
    then show "parse_value n (QuoteJSONString s @ rest) = Some (JStr s, rest)"
      using parse_value_string by simp
  qed
next
  case (6 xs)
  let ?j = "join_comma (JSON_elements xs)"
  show ?case
  proof (intro exI conjI allI impI)
    show "JSON_stringify (JArr xs) = Some (CHR ''['' # ?j @ '']'')" by simp
    show "value_start (CHR ''['' # ?j @ '']'')" by (rule value_start_simps)
    fix n :: nat and rest
    assume len: "length (CHR ''['' # ?j @ '']'') < n"
    then obtain m where m: "n = Suc m" by (cases n) simp_all
    show "parse_value n ((CHR ''['' # ?j @ '']'') @ rest) = Some (JArr xs, rest)"
    proof (cases "xs = []")
      case True
      then show ?thesis using parse_value_array_empty [of m rest] m by simp
    next
      case False
      from "6.IH" "6.prems" False
      have st: "value_start ?j"
        and p: "\<And>k r. length ?j + 1 < k \<Longrightarrow> parse_elements k (?j @ CHR '']'' # r) = Some (xs, r)"
        by simp_all
      have "length ?j + 1 < m" using len m by simp
      from p [OF this, of rest] parse_value_array [OF value_start_append [OF st], of m "CHR '']'' # rest"]
      show ?thesis using m by simp
    qed
  qed
next
  case (7 ps)
  let ?j = "join_comma (JSON_members ps)"
  show ?case
  proof (intro exI conjI allI impI)
    show "JSON_stringify (JObj ps) = Some (CHR ''{'' # ?j @ ''}'')" by simp
    show "value_start (CHR ''{'' # ?j @ ''}'')" by (rule value_start_simps)
    fix n :: nat and rest
    assume len: "length (CHR ''{'' # ?j @ ''}'') < n"
    then obtain m where m: "n = Suc m" by (cases n) simp_all
    from "7.prems" have d: "distinct (map fst ps)" and sm: "json_safe_members ps" by simp_all
    show "parse_value n ((CHR ''{'' # ?j @ ''}'') @ rest) = Some (JObj ps, rest)"
    proof (cases "ps = []")
      case True
      then show ?thesis using parse_value_object_empty [of m rest] m by simp
    next
      case False
      from "7.IH" sm False
      have st: "value_start ?j"
        and p: "\<And>k r. length ?j + 1 < k \<Longrightarrow> parse_members k (?j @ CHR ''}'' # r) = Some (ps, r)"
        by simp_all
      have "length ?j + 1 < m" using len m by simp
      from p [OF this, of rest] parse_value_object [OF value_start_append [OF st], of m "CHR ''}'' # rest"]
      show ?thesis using m by (simp add: members_object_distinct [OF d])
    qed
  qed
next
  case 8
  then show ?case by simp
next
  case (9 x xs)
  from "9.prems" have sx: "json_safe x" and sxs: "json_safe_elements xs" by simp_all
  from "9.IH"(1) [OF sx] obtain e where e: "JSON_stringify x = Some e" "value_start e"
    and pe: "\<And>n rest. length e < n \<Longrightarrow> value_end rest \<Longrightarrow> parse_value n (e @ rest) = Some (x, rest)"
    by blast
  let ?es = "JSON_elements xs"
  have enc: "JSON_elements (x # xs) = e # ?es" using e(1) by simp
  show ?case
  proof (cases "xs = []")
    case True
    have "parse_elements n (e @ CHR '']'' # rest) = Some ([x], rest)" if "length e + 1 < n" for n rest
    proof -
      from that obtain m where m: "n = Suc m" "length e < m" by (cases n) simp_all
      have "parse_value m (e @ CHR '']'' # rest) = Some (x, CHR '']'' # rest)"
        by (rule pe [OF m(2)]) (simp add: value_end_def)
      from parse_elements_step(1) [OF this refl] m show ?thesis by simp
    qed
    then show ?thesis using True e(2) by (simp add: e(1))
  next
    case False
    from "9.IH"(2) [OF sxs False]
    have ne: "?es \<noteq> []"
      and p: "\<And>k r. length (join_comma ?es) + 1 < k \<Longrightarrow>
             parse_elements k (join_comma ?es @ CHR '']'' # r) = Some (xs, r)"
      by simp_all
    have j: "join_comma (e # ?es) = e @ CHR '','' # join_comma ?es"
      using ne by (simp add: join_comma_Cons)
    have "parse_elements n (join_comma (e # ?es) @ CHR '']'' # rest) = Some (x # xs, rest)"
      if "length (join_comma (e # ?es)) + 1 < n" for n rest
    proof -
      from that obtain m where m: "n = Suc m" "length e < m" "length (join_comma ?es) + 1 < m"
        by (cases n) (simp_all add: j)
      have "parse_value m (e @ CHR '','' # join_comma ?es @ CHR '']'' # rest) =
          Some (x, CHR '','' # join_comma ?es @ CHR '']'' # rest)"
        by (rule pe [OF m(2)]) (simp add: value_end_def)
      from parse_elements_step(2) [OF this refl p [OF m(3), of rest]] m show ?thesis
        by (simp add: j)
    qed
    then show ?thesis using e(2) by (simp add: e(1) j value_start_append del: join_comma.simps)
  qed
next
  case 10
  then show ?case by simp
next
  case (11 k v ps)
  from "11.prems" have sv: "json_safe v" and sps: "json_safe_members ps" by simp_all
  from "11.IH"(1) [OF sv] obtain e where e: "JSON_stringify v = Some e" "value_start e"
    and pe: "\<And>n rest. length e < n \<Longrightarrow> value_end rest \<Longrightarrow> parse_value n (e @ rest) = Some (v, rest)"
    by blast
  let ?m = "QuoteJSONString k @ CHR '':'' # e"
  let ?es = "JSON_members ps"
  have enc: "JSON_members ((k, v) # ps) = ?m # ?es" using e(1) by simp
  have lm: "length e + 3 \<le> length ?m" by (simp add: QuoteJSONString_def)
  have stm: "value_start (?m @ t)" for t
    by (simp add: QuoteJSONString_def value_start_def is_ws_def)
  show ?case
  proof (cases "ps = []")
    case True
    have "parse_members n (?m @ CHR ''}'' # rest) = Some ([(k, v)], rest)" if "length ?m + 1 < n" for n rest
    proof -
      from that lm obtain m where m: "n = Suc m" "length e < m" by (cases n) simp_all
      have "parse_value m (e @ CHR ''}'' # rest) = Some (v, CHR ''}'' # rest)"
        by (rule pe [OF m(2)]) (simp add: value_end_def)
      from parse_members_step(1) [OF this refl, of k] m show ?thesis by simp
    qed
    then show ?thesis using True stm [of "[]"] by (simp add: e(1))
  next
    case False
    from "11.IH"(3) [OF e(1) sps False]
    have ne: "?es \<noteq> []"
      and p: "\<And>k r. length (join_comma ?es) + 1 < k \<Longrightarrow>
             parse_members k (join_comma ?es @ CHR ''}'' # r) = Some (ps, r)"
      by simp_all
    have j: "join_comma (?m # ?es) = ?m @ CHR '','' # join_comma ?es"
      using ne by (simp add: join_comma_Cons)
    have "parse_members n (join_comma (?m # ?es) @ CHR ''}'' # rest) = Some ((k, v) # ps, rest)"
      if "length (join_comma (?m # ?es)) + 1 < n" for n rest
    proof -
      from that lm obtain m where m: "n = Suc m" "length e < m" "length (join_comma ?es) + 1 < m"
        by (cases n) (simp_all add: j)
      have "parse_value m (e @ CHR '','' # join_comma ?es @ CHR ''}'' # rest) =
          Some (v, CHR '','' # join_comma ?es @ CHR ''}'' # rest)"
        by (rule pe [OF m(2)]) (simp add: value_end_def)
      from parse_members_step(2) [OF this refl p [OF m(3), of rest], of k] m show ?thesis
        by (simp add: j)
    qed
    then show ?thesis using stm by (simp add: e(1) j del: join_comma.simps)
  qed
qed

lemma JSON_roundtrip:
  assumes "json_safe v"
  shows "\<exists>s. JSON_stringify v = Some s \<and> JSON_parse s = Some v"
proof -
  from roundtrip_aux(1) [OF assms] obtain e where e: "JSON_stringify v = Some e"
    and p: "\<And>n rest. length e < n \<Longrightarrow> value_end rest \<Longrightarrow> parse_value n (e @ rest) = Some (v, rest)"
    by blast
  have "parse_value (Suc (length e)) (e @ []) = Some (v, [])"
    by (rule p) (simp_all add: value_end_def)
  then show ?thesis using e by (simp add: JSON_parse_def)
qed

text \<open>Under a content type of the JSON family \<open>serialize\<close> hands the body to
  \<open>JSON.stringify\<close>.\<close>

lemma serialize_json:
  assumes "ct \<noteq> []" and "typeIs ct [''application/json'', ''application/*+json'']"
  shows "serialize typeIs build v (Some ct) = Inr (of_opt_string (JSON_stringify v))"
  using assms
  by (simp add: serialize_def serializers_def json_serializer_def of_opt_string_def)

section \<open>Properties of the request body\<close>

text \<open>\<open>Headers.get\<close> answers \<open>null\<close> for a missing header, never \<open>undefined\<close>, so the
  second test of \<open>parseRequestBody\<close> never holds.\<close>

lemma Headers_get_not_undefined: "Headers_get hs n \<noteq> JUndefined"
  by (simp add: Headers_get_def split: option.splits)

lemma parseRequestBody_eq:
  "parseRequestBody typeIs request =
     (if Headers_get (request_headers request) ''content-length'' = JStr ''0'' then Inr JNull
      else if typeIs_value typeIs (Headers_get (request_headers request) ''content-type'')
                [''application/json'', ''application/*+json'']
           then Request_json request
           else Request_text request)"
  by (simp add: parseRequestBody_def strict_equals_def Headers_get_not_undefined)

text \<open>
  Claim C2 at a request with neither a content-length nor a transfer-encoding header:
  the body is not \<open>null\<close>. Without a JSON content type it is the raw text (here the
  empty string); with one it is parsed as JSON.
\<close>

theorem body_without_length_headers:
  "Headers_get (request_headers (bare_request [] [])) ''content-length'' = JNull
   \<and> Headers_get (request_headers (bare_request [] [])) ''transfer-encoding'' = JNull
   \<and> parseRequestBody typeIs (bare_request [] []) = Inr (JStr [])
   \<and> parseRequestBody typeIs (bare_request [] []) \<noteq> Inr JNull
   \<and> parseRequestBody (\<lambda>v ts. v = ''application/json'')
        (bare_request [(''content-type'', ''application/json'')] ''{\"a\":1}'') =
       Inr (JObj [(''a'', JNum 1)])"
proof -
  have "JSON_parse ''{\"a\":1}'' = Some (JObj [(''a'', JNum 1)])"
    by code_simp
  then show ?thesis
    by (simp add: parseRequestBody_eq bare_request_def Headers_get_def typeIs_value_def
        Request_text_def Request_json_def)
qed

text \<open>After \<open>orElse\<close> the pipe never holds a \<open>Left\<close>: \<open>fetch\<close> does not throw
  \<open>unreachable\<close>. It rejects exactly when the body cannot be read or a step throws.\<close>

lemma pipeline_not_Left: "pipeline lib config prism_request input rc \<noteq> Left e"
  by (simp add: pipeline_def TE_orElse_def error_translator_eq split: task_either.splits option.splits)

lemma fetch_cases:
  assumes "parseRequestBody (imp_typeIs lib) request = Inr body"
  shows "(\<exists>resp. fetch lib config prism_request request = Inr resp)
       \<or> (\<exists>e input rc. fetch lib config prism_request request = Inl e
             \<and> pipeline lib config prism_request input rc = Rejects e)"
  using assms
  by (auto simp add: fetch_def Let_def pipeline_not_Left split: sum.splits task_either.splits)

end
